theory Spec2Isabelle
  imports Complex_Main "HOL-Library.Multiset"
begin

section \<open>Data model of the shape plugin\<close>

text \<open>
  The plugin script turns a JSON-like shape configuration into scene nodes of the host.
  JavaScript numbers are idealised as exact rationals (no NaN, no rounding); an optional
  field is an \<open>option\<close>, with \<open>None\<close> for \<open>undefined\<close>. Strings are
  lists of 8-bit characters, so the model covers ASCII text.

  Field names carry a prefix, since a record field is a constant of the theory:
  \<open>cfg_fill\<close> is \<open>config.fill\<close>, \<open>n_fills\<close> is \<open>node.fills\<close>, and so on.
\<close>

type_synonym number = rat

record ShapeConfig =
  cfg_type :: string
  cfg_x :: number
  cfg_y :: number
  cfg_width :: number
  cfg_height :: number
  cfg_fill :: "string option"
  cfg_stroke :: "string option"
  cfg_strokeWidth :: "number option"
  cfg_cornerRadius :: "number option"
  cfg_zIndex :: "number option"
  cfg_text :: "string option"
  cfg_fontSize :: "number option"
  cfg_pointCount :: "number option"
  cfg_innerRadius :: "number option"
  cfg_polygonPointCount :: "number option"

record MultiShapeConfig =
  shapes :: "ShapeConfig list"

text \<open>
  A scene node is owned by the host. The model keeps its kind and every attribute the
  script has assigned; \<open>None\<close> means that the script left the host's default in place.
\<close>

datatype kind = Rectangle | Ellipse | Star | Polygon | Line | Frame | Text

datatype rgb = RGB (red: number) (green: number) (blue: number)

datatype paint = SOLID (paint_color: rgb)

record node =
  n_kind :: kind
  n_x :: "number option"
  n_y :: "number option"
  n_size :: "(number \<times> number) option"
  n_fills :: "paint list option"
  n_strokes :: "paint list option"
  n_strokeWeight :: "number option"
  n_cornerRadius :: "number option"
  n_pointCount :: "number option"
  n_innerRadius :: "number option"
  n_characters :: "string option"
  n_fontSize :: "number option"

text \<open>
  The host API is not part of the repository. What the script asks of it is a parameter:
  which node kinds carry the members tested by \<open>'resize' in node\<close>, \<open>'fills' in node\<close>,
  \<open>'strokes' in node\<close> and \<open>'strokeWeight' in node\<close>, and whether
  \<open>figma.loadFontAsync\<close> resolves, and whether a node constructor
  (\<open>figma.createRectangle\<close> and the like) places the node it returns under the current
  page. Attribute assignments are plain stores.
\<close>

record host =
  has_resize :: "kind \<Rightarrow> bool"
  has_fills :: "kind \<Rightarrow> bool"
  has_strokes :: "kind \<Rightarrow> bool"
  has_strokeWeight :: "kind \<Rightarrow> bool"
  loadFontAsync :: bool
  constructors_parent :: bool

text \<open>
  The host of the plugin typings: every node kind has all four members, and, as the
  plugin API documents, a constructed node is parented under the current page.
\<close>

definition figma :: host where
  "figma = \<lparr>has_resize = (\<lambda>k. True), has_fills = (\<lambda>k. True), has_strokes = (\<lambda>k. True),
     has_strokeWeight = (\<lambda>k. True), loadFontAsync = True, constructors_parent = True\<rparr>"

text \<open>
  The three ways in which the script fails: the \<open>default\<close> branch of the switch, the
  \<open>throw\<close> of \<open>hexToRgb\<close>, and a rejected font load.
\<close>

datatype error = UnsupportedShapeType | InvalidColor | ResourceUnavailable

definition create :: "kind \<Rightarrow> node" where
  "create k = \<lparr>n_kind = k, n_x = None, n_y = None, n_size = None, n_fills = None,
     n_strokes = None, n_strokeWeight = None, n_cornerRadius = None, n_pointCount = None,
     n_innerRadius = None, n_characters = None, n_fontSize = None\<rparr>"

section \<open>Colour resolution\<close>

definition colorNames :: "string \<rightharpoonup> string" where
  "colorNames = map_of
    [(''transparent'', ''transparent''),
     (''red'', ''#ff0000''),
     (''green'', ''#00ff00''),
     (''blue'', ''#0000ff''),
     (''black'', ''#000000''),
     (''white'', ''#ffffff''),
     (''gray'', ''#808080''),
     (''grey'', ''#808080''),
     (''yellow'', ''#ffff00''),
     (''orange'', ''#ffa500''),
     (''purple'', ''#800080''),
     (''pink'', ''#ffc0cb''),
     (''brown'', ''#a52a2a''),
     (''primary'', ''#007bff''),
     (''secondary'', ''#6c757d''),
     (''success'', ''#28a745''),
     (''danger'', ''#dc3545''),
     (''warning'', ''#ffc107''),
     (''info'', ''#17a2b8''),
     (''light'', ''#f8f9fa''),
     (''dark'', ''#343a40'')]"

definition toLowerCase_char :: "char \<Rightarrow> char" where
  "toLowerCase_char c =
     (case map_of (zip ''ABCDEFGHIJKLMNOPQRSTUVWXYZ'' ''abcdefghijklmnopqrstuvwxyz'') c of
        None \<Rightarrow> c | Some l \<Rightarrow> l)"

definition toLowerCase :: "string \<Rightarrow> string" where
  "toLowerCase s = map toLowerCase_char s"

text \<open>
  \<open>normalizeColor\<close>: the literal \<open>transparent\<close> and anything starting with \<open>#\<close> pass
  through; a name found in the table (after lower-casing, and with a truthy entry) is
  replaced by its entry; everything else is returned as it is.
\<close>

definition startsWith_hash :: "string \<Rightarrow> bool" where
  "startsWith_hash s = (case s of [] \<Rightarrow> False | c # _ \<Rightarrow> c = CHR ''#'')"

definition normalizeColor :: "string \<Rightarrow> string" where
  "normalizeColor color =
     (if color = ''transparent'' then ''transparent''
      else if startsWith_hash color then color
      else (case colorNames (toLowerCase color) of
              Some v \<Rightarrow> if v \<noteq> [] then v else color
            | None \<Rightarrow> color))"

text \<open>
  \<open>hexToRgb\<close> matches \<open>/^#?([a-f\d]{2})([a-f\d]{2})([a-f\d]{2})$/i\<close>: an optional
  \<open>#\<close>, then three groups of two characters of the class, and nothing else.
\<close>

definition hexval :: "char \<Rightarrow> nat option" where
  "hexval c = map_of
     [(CHR ''0'', 0), (CHR ''1'', 1), (CHR ''2'', 2), (CHR ''3'', 3), (CHR ''4'', 4),
      (CHR ''5'', 5), (CHR ''6'', 6), (CHR ''7'', 7), (CHR ''8'', 8), (CHR ''9'', 9),
      (CHR ''a'', 10), (CHR ''b'', 11), (CHR ''c'', 12), (CHR ''d'', 13), (CHR ''e'', 14),
      (CHR ''f'', 15), (CHR ''A'', 10), (CHR ''B'', 11), (CHR ''C'', 12), (CHR ''D'', 13),
      (CHR ''E'', 14), (CHR ''F'', 15)] c"

definition in_class :: "char \<Rightarrow> bool" where
  "in_class c = (hexval c \<noteq> None)"

definition regex_exec :: "string \<Rightarrow> (string \<times> string \<times> string) option" where
  "regex_exec s =
     (let body = (if startsWith_hash s then tl s else s) in
      case body of
        [a1, a2, b1, b2, c1, c2] \<Rightarrow>
          if in_class a1 \<and> in_class a2 \<and> in_class b1 \<and> in_class b2 \<and> in_class c1 \<and> in_class c2
          then Some ([a1, a2], [b1, b2], [c1, c2]) else None
      | _ \<Rightarrow> None)"

definition parseInt16 :: "string \<Rightarrow> nat" where
  "parseInt16 s = foldl (\<lambda>acc c. 16 * acc + the (hexval c)) 0 s"

definition hexToRgb :: "string \<Rightarrow> error + rgb" where
  "hexToRgb hex =
     (case regex_exec hex of
        None \<Rightarrow> Inl InvalidColor
      | Some (g1, g2, g3) \<Rightarrow>
          Inr (RGB (of_nat (parseInt16 g1) / 255) (of_nat (parseInt16 g2) / 255)
                   (of_nat (parseInt16 g3) / 255)))"

section \<open>The shape factory\<close>

text \<open>JavaScript truthiness of an optional number and of an optional string.\<close>

definition truthy_num :: "number option \<Rightarrow> bool" where
  "truthy_num v = (case v of None \<Rightarrow> False | Some n \<Rightarrow> n \<noteq> 0)"

definition truthy_str :: "string option \<Rightarrow> bool" where
  "truthy_str v = (case v of None \<Rightarrow> False | Some s \<Rightarrow> s \<noteq> [])"

text \<open>The \<open>switch\<close> on \<open>config.type\<close>, in the order of its cases.\<close>

definition create_base :: "host \<Rightarrow> ShapeConfig \<Rightarrow> error + node" where
  "create_base h config =
     (if cfg_type config = ''rectangle'' then
        Inr (let node = create Rectangle in
             if cfg_cornerRadius config \<noteq> None
             then node\<lparr>n_cornerRadius := cfg_cornerRadius config\<rparr> else node)
      else if cfg_type config = ''ellipse'' then Inr (create Ellipse)
      else if cfg_type config = ''star'' then
        Inr (let star = create Star;
                 star = (if truthy_num (cfg_pointCount config)
                         then star\<lparr>n_pointCount := cfg_pointCount config\<rparr> else star);
                 star = (if truthy_num (cfg_innerRadius config)
                         then star\<lparr>n_innerRadius := cfg_innerRadius config\<rparr> else star)
             in star)
      else if cfg_type config = ''polygon'' then
        Inr (let polygon = create Polygon in
             if truthy_num (cfg_polygonPointCount config)
             then polygon\<lparr>n_pointCount := cfg_polygonPointCount config\<rparr> else polygon)
      else if cfg_type config = ''line'' then Inr (create Line)
      else if cfg_type config = ''frame'' then Inr (create Frame)
      else if cfg_type config = ''text'' then
        (if \<not> loadFontAsync h then Inl ResourceUnavailable
         else Inr (let textNode = create Text;
                       textNode = (if truthy_str (cfg_text config)
                                   then textNode\<lparr>n_characters := cfg_text config\<rparr> else textNode);
                       textNode = (if truthy_num (cfg_fontSize config)
                                   then textNode\<lparr>n_fontSize := cfg_fontSize config\<rparr> else textNode)
                   in textNode))
      else Inl UnsupportedShapeType)"

definition apply_fill :: "host \<Rightarrow> ShapeConfig \<Rightarrow> node \<Rightarrow> error + node" where
  "apply_fill h config node =
     (if truthy_str (cfg_fill config) \<and> cfg_fill config \<noteq> Some ''transparent''
         \<and> has_fills h (n_kind node)
      then (let hexColor = normalizeColor (the (cfg_fill config)) in
            if hexColor \<noteq> ''transparent''
            then (case hexToRgb hexColor of
                    Inl e \<Rightarrow> Inl e
                  | Inr c \<Rightarrow> Inr (node\<lparr>n_fills := Some [SOLID c]\<rparr>))
            else Inr node)
      else Inr node)"

definition apply_stroke :: "host \<Rightarrow> ShapeConfig \<Rightarrow> node \<Rightarrow> error + node" where
  "apply_stroke h config node =
     (if truthy_str (cfg_stroke config) \<and> has_strokes h (n_kind node)
      then (let hexColor = normalizeColor (the (cfg_stroke config)) in
            case hexToRgb hexColor of
              Inl e \<Rightarrow> Inl e
            | Inr c \<Rightarrow>
                Inr (let node = node\<lparr>n_strokes := Some [SOLID c]\<rparr> in
                     if truthy_num (cfg_strokeWidth config) \<and> has_strokeWeight h (n_kind node)
                     then node\<lparr>n_strokeWeight := cfg_strokeWidth config\<rparr> else node))
      else Inr node)"

definition generateShape :: "host \<Rightarrow> ShapeConfig \<Rightarrow> error + node" where
  "generateShape h config =
     (case create_base h config of
        Inl e \<Rightarrow> Inl e
      | Inr node \<Rightarrow>
          (let node = node\<lparr>n_x := Some (cfg_x config), n_y := Some (cfg_y config)\<rparr>;
               node = (if has_resize h (n_kind node)
                       then node\<lparr>n_size := Some (cfg_width config, cfg_height config)\<rparr>
                       else node)
           in case apply_fill h config node of
                Inl e \<Rightarrow> Inl e
              | Inr node \<Rightarrow> apply_stroke h config node))"

text \<open>
  The position and size assignments of \<open>generateShape\<close> taken by themselves, as
  the step between the construction of the node and its paints.
\<close>

definition placed :: "host \<Rightarrow> ShapeConfig \<Rightarrow> node \<Rightarrow> node" where
  "placed h c n =
     (if has_resize h (n_kind n)
      then n\<lparr>n_x := Some (cfg_x c), n_y := Some (cfg_y c),
             n_size := Some (cfg_width c, cfg_height c)\<rparr>
      else n\<lparr>n_x := Some (cfg_x c), n_y := Some (cfg_y c)\<rparr>)"

section \<open>The composition engine\<close>

text \<open>
  \<open>Array.prototype.sort\<close> with a comparator is a stable sort: an element moves behind
  another one only if the comparator says it is greater. For a comparator that is a
  difference of keys, every stable sort returns the same list; the model is the insertion
  sort that puts each element before the first one it is not greater than.
\<close>

fun insert_by :: "('a \<Rightarrow> 'a \<Rightarrow> number) \<Rightarrow> 'a \<Rightarrow> 'a list \<Rightarrow> 'a list" where
  "insert_by cmp a [] = [a]"
| "insert_by cmp a (b # bs) = (if cmp a b > 0 then b # insert_by cmp a bs else a # b # bs)"

fun Array_sort :: "('a \<Rightarrow> 'a \<Rightarrow> number) \<Rightarrow> 'a list \<Rightarrow> 'a list" where
  "Array_sort cmp [] = []"
| "Array_sort cmp (a # as) = insert_by cmp a (Array_sort cmp as)"

text \<open>\<open>zIndex ?? 0\<close>, and the comparator of the script.\<close>

definition zIndex_or_0 :: "ShapeConfig \<Rightarrow> number" where
  "zIndex_or_0 a = (case cfg_zIndex a of None \<Rightarrow> 0 | Some z \<Rightarrow> z)"

definition compare_zIndex :: "ShapeConfig \<Rightarrow> ShapeConfig \<Rightarrow> number" where
  "compare_zIndex a b = (let aZ = zIndex_or_0 a; bZ = zIndex_or_0 b in aZ - bZ)"

definition sortedShapes :: "MultiShapeConfig \<Rightarrow> ShapeConfig list" where
  "sortedShapes config = Array_sort compare_zIndex (shapes config)"

text \<open>The \<open>for ... of\<close> loop: the first failure leaves the loop and the function.\<close>

fun generateShapes_loop :: "host \<Rightarrow> ShapeConfig list \<Rightarrow> node list \<Rightarrow> error + node list" where
  "generateShapes_loop h [] nodes = Inr nodes"
| "generateShapes_loop h (shapeConfig # rest) nodes =
     (case generateShape h shapeConfig of
        Inl e \<Rightarrow> Inl e
      | Inr node \<Rightarrow> generateShapes_loop h rest (nodes @ [node]))"

definition generateShapes :: "host \<Rightarrow> MultiShapeConfig \<Rightarrow> error + node list" where
  "generateShapes h config = generateShapes_loop h (sortedShapes config) []"

section \<open>Nodes constructed by the host\<close>

text \<open>
  The functions above give what a call returns or throws. A call also makes the host
  construct nodes, and the script never removes one. \<open>generateShape\<close> constructs
  no node when the switch throws or the font load is rejected (both happen before the
  constructor is called), and one node otherwise; when a colour is rejected after that,
  the node stays as the assignments before the \<open>throw\<close> have left it. The loop of
  \<open>generateShapes\<close> has constructed the nodes of all entries up to and including the
  one that throws.
\<close>

definition generateShape_constructed :: "host \<Rightarrow> ShapeConfig \<Rightarrow> node list" where
  "generateShape_constructed h config =
     (case create_base h config of
        Inl e \<Rightarrow> []
      | Inr node \<Rightarrow>
          (let node = placed h config node in
           case apply_fill h config node of
             Inl e \<Rightarrow> [node]
           | Inr node \<Rightarrow>
               (case apply_stroke h config node of
                  Inl e \<Rightarrow> [node]
                | Inr node' \<Rightarrow> [node'])))"

fun generateShapes_loop_constructed :: "host \<Rightarrow> ShapeConfig list \<Rightarrow> node list" where
  "generateShapes_loop_constructed h [] = []"
| "generateShapes_loop_constructed h (shapeConfig # rest) =
     generateShape_constructed h shapeConfig @
     (case generateShape h shapeConfig of
        Inl e \<Rightarrow> []
      | Inr node \<Rightarrow> generateShapes_loop_constructed h rest)"

definition generateShapes_constructed :: "host \<Rightarrow> MultiShapeConfig \<Rightarrow> node list" where
  "generateShapes_constructed h config = generateShapes_loop_constructed h (sortedShapes config)"

section \<open>The message handler\<close>

text \<open>
  What the handler does to the host: the nodes it has made the host construct, the nodes
  passed to \<open>figma.currentPage.appendChild\<close>, the selection, the nodes the viewport
  was moved to, and whether the plugin was closed. A handler that throws returns the
  state it has reached together with the error.
\<close>

record figma_state =
  constructed :: "node list"
  currentPage_children :: "node list"
  currentPage_selection :: "node list"
  viewport_focus :: "node list"
  plugin_closed :: bool

text \<open>\<open>msg.config\<close> is a batch when it has a \<open>shapes\<close> member, a single shape otherwise.\<close>

datatype config = Single ShapeConfig | Multi MultiShapeConfig

record msg =
  msg_type :: string
  msg_count :: nat
  msg_config :: "config option"

definition host_constructs :: "node list \<Rightarrow> figma_state \<Rightarrow> figma_state" where
  "host_constructs ns st = st\<lparr>constructed := constructed st @ ns\<rparr>"

text \<open>
  The nodes on the current page: those passed to \<open>appendChild\<close>, and the constructed
  ones when the constructors of the host parent them there.
\<close>

definition on_page :: "host \<Rightarrow> figma_state \<Rightarrow> node set" where
  "on_page h st =
     set (currentPage_children st) \<union> (if constructors_parent h then set (constructed st) else {})"

definition appendChild :: "node \<Rightarrow> figma_state \<Rightarrow> figma_state" where
  "appendChild n st = st\<lparr>currentPage_children := currentPage_children st @ [n]\<rparr>"

definition select_and_focus :: "node list \<Rightarrow> figma_state \<Rightarrow> figma_state" where
  "select_and_focus ns st = st\<lparr>currentPage_selection := ns, viewport_focus := ns\<rparr>"

definition star_request :: ShapeConfig where
  "star_request = \<lparr>cfg_type = ''star'', cfg_x = 50, cfg_y = 50, cfg_width = 200,
     cfg_height = 200, cfg_fill = Some ''red'', cfg_stroke = None, cfg_strokeWidth = None,
     cfg_cornerRadius = None, cfg_zIndex = None, cfg_text = None, cfg_fontSize = None,
     cfg_pointCount = Some 7, cfg_innerRadius = Some (6 / 10), cfg_polygonPointCount = None\<rparr>"

definition on_create_star :: "host \<Rightarrow> figma_state \<Rightarrow> figma_state \<times> error option" where
  "on_create_star h st =
     (let st = host_constructs (generateShape_constructed h star_request) st in
      case generateShape h star_request of
        Inl e \<Rightarrow> (st, Some e)
      | Inr starNode \<Rightarrow> (select_and_focus [starNode] (appendChild starNode st), None))"

definition on_create_shape_from_json ::
  "host \<Rightarrow> config \<Rightarrow> figma_state \<Rightarrow> figma_state \<times> error option" where
  "on_create_shape_from_json h cfg st =
     (case cfg of
        Multi m \<Rightarrow>
          (let st = host_constructs (generateShapes_constructed h m) st in
           case generateShapes h m of
             Inl e \<Rightarrow> (st, Some e)
           | Inr newNodes \<Rightarrow>
               (select_and_focus newNodes (foldl (\<lambda>s n. appendChild n s) st newNodes), None))
      | Single c \<Rightarrow>
          (let st = host_constructs (generateShape_constructed h c) st in
           case generateShape h c of
             Inl e \<Rightarrow> (st, Some e)
           | Inr newNode \<Rightarrow> (select_and_focus [newNode] (appendChild newNode st), None)))"

definition on_create_shapes :: "nat \<Rightarrow> figma_state \<Rightarrow> figma_state" where
  "on_create_shapes numberOfRectangles st =
     (let nodes = map (\<lambda>i. (create Rectangle)\<lparr>n_x := Some (of_nat i * 150),
                              n_fills := Some [SOLID (RGB 1 (1 / 2) 0)]\<rparr>)
                      [0 ..< numberOfRectangles]
      in select_and_focus nodes
           (foldl (\<lambda>s n. appendChild n s) (host_constructs nodes st) nodes))"

definition onmessage :: "host \<Rightarrow> msg \<Rightarrow> figma_state \<Rightarrow> figma_state \<times> error option" where
  "onmessage h m st =
     (case (if msg_type m = ''create-star'' then on_create_star h st else (st, None)) of
        (st, Some e) \<Rightarrow> (st, Some e)
      | (st, None) \<Rightarrow>
     (case (if msg_type m = ''create-shape-from-json'' \<and> msg_config m \<noteq> None
            then on_create_shape_from_json h (the (msg_config m)) st else (st, None)) of
        (st, Some e) \<Rightarrow> (st, Some e)
      | (st, None) \<Rightarrow>
     (let st = (if msg_type m = ''create-shapes'' then on_create_shapes (msg_count m) st else st)
      in (if msg_type m \<noteq> ''create-shape-from-json'' then st\<lparr>plugin_closed := True\<rparr> else st,
          None))))"

section \<open>Vocabulary of the specification\<close>

text \<open>The closed enumeration of shape types, and the node kind each one stands for.\<close>

definition kind_of_type :: "string \<Rightarrow> kind option" where
  "kind_of_type = map_of
     [(''rectangle'', Rectangle), (''ellipse'', Ellipse), (''star'', Star),
      (''polygon'', Polygon), (''line'', Line), (''frame'', Frame), (''text'', Text)]"

definition supported_types :: "string set" where
  "supported_types =
     {''rectangle'', ''ellipse'', ''star'', ''polygon'', ''line'', ''frame'', ''text''}"

text \<open>
  The hex strings of the specification, \<open>^#?[0-9a-fA-F]{6}$\<close>, the part after the
  optional \<open>#\<close>, and the value of a hex digit read off its character code.
\<close>

definition spec_hexdigit :: "char \<Rightarrow> bool" where
  "spec_hexdigit c = (c \<in> set ''0123456789abcdefABCDEF'')"

definition spec_strip_hash :: "string \<Rightarrow> string" where
  "spec_strip_hash s = (case s of [] \<Rightarrow> [] | c # t \<Rightarrow> if c = CHR ''#'' then t else s)"

definition spec_hex6 :: "string \<Rightarrow> bool" where
  "spec_hex6 s = (length (spec_strip_hash s) = 6 \<and> list_all spec_hexdigit (spec_strip_hash s))"

definition spec_digit :: "char \<Rightarrow> nat" where
  "spec_digit c =
     (let n = (of_char c :: nat) in
      if n \<le> 57 then n - 48 else if n \<le> 70 then n - 55 else n - 87)"

definition spec_byte :: "nat \<Rightarrow> string \<Rightarrow> nat" where
  "spec_byte i s =
     16 * spec_digit (spec_strip_hash s ! (2 * i)) + spec_digit (spec_strip_hash s ! (2 * i + 1))"

section \<open>Example requests\<close>

definition blank :: ShapeConfig where
  "blank = \<lparr>cfg_type = [], cfg_x = 0, cfg_y = 0, cfg_width = 100, cfg_height = 100,
     cfg_fill = None, cfg_stroke = None, cfg_strokeWidth = None, cfg_cornerRadius = None,
     cfg_zIndex = None, cfg_text = None, cfg_fontSize = None, cfg_pointCount = None,
     cfg_innerRadius = None, cfg_polygonPointCount = None\<rparr>"

definition blank_node :: "kind \<Rightarrow> node" where
  "blank_node k = (create k)\<lparr>n_x := Some 0, n_y := Some 0, n_size := Some (100, 100)\<rparr>"

definition star_red :: ShapeConfig where
  "star_red = blank\<lparr>cfg_type := ''star'', cfg_zIndex := Some 2, cfg_fill := Some ''red''\<rparr>"

definition ellipse_green :: ShapeConfig where
  "ellipse_green = blank\<lparr>cfg_type := ''ellipse'', cfg_zIndex := Some 1, cfg_fill := Some ''green''\<rparr>"

definition kite :: ShapeConfig where
  "kite = blank\<lparr>cfg_type := ''kite''\<rparr>"

definition kite_front :: ShapeConfig where
  "kite_front = kite\<lparr>cfg_zIndex := Some 3\<rparr>"

definition kite_ellipse :: MultiShapeConfig where
  "kite_ellipse = \<lparr>shapes = [kite_front, ellipse_green]\<rparr>"

definition star_ellipse :: MultiShapeConfig where
  "star_ellipse = \<lparr>shapes = [star_red, ellipse_green]\<rparr>"

definition star_kite_ellipse :: MultiShapeConfig where
  "star_kite_ellipse = \<lparr>shapes = [star_red, kite, ellipse_green]\<rparr>"

definition star_red_node :: node where
  "star_red_node = (blank_node Star)\<lparr>n_fills := Some [SOLID (RGB 1 0 0)]\<rparr>"

definition ellipse_green_node :: node where
  "ellipse_green_node = (blank_node Ellipse)\<lparr>n_fills := Some [SOLID (RGB 0 1 0)]\<rparr>"

definition empty_state :: figma_state where
  "empty_state = \<lparr>constructed = [], currentPage_children = [], currentPage_selection = [],
     viewport_focus = [], plugin_closed = False\<rparr>"

definition json_msg :: "config \<Rightarrow> msg" where
  "json_msg cfg = \<lparr>msg_type = ''create-shape-from-json'', msg_count = 0, msg_config = Some cfg\<rparr>"

lemmas color_defs = normalizeColor_def startsWith_hash_def toLowerCase_def toLowerCase_char_def
  colorNames_def hexToRgb_def regex_exec_def in_class_def hexval_def parseInt16_def

lemmas shape_defs = generateShape_def create_base_def apply_fill_def apply_stroke_def
  create_def truthy_str_def truthy_num_def figma_def

lemmas example_defs = blank_def blank_node_def star_red_def ellipse_green_def kite_def
  kite_front_def kite_ellipse_def
  star_ellipse_def star_kite_ellipse_def star_red_node_def ellipse_green_node_def

lemma generateShape_star_red: "generateShape figma star_red = Inr star_red_node"
  by (simp add: shape_defs color_defs example_defs)

lemma generateShape_ellipse_green: "generateShape figma ellipse_green = Inr ellipse_green_node"
  by (simp add: shape_defs color_defs example_defs)

lemma generateShape_kite: "generateShape h kite = Inl UnsupportedShapeType"
  by (simp add: shape_defs example_defs)

lemma sortedShapes_star_ellipse: "sortedShapes star_ellipse = [ellipse_green, star_red]"
  by (simp add: sortedShapes_def compare_zIndex_def zIndex_or_0_def example_defs)

lemma generateShapes_star_ellipse:
  "generateShapes figma star_ellipse = Inr [ellipse_green_node, star_red_node]"
  by (simp add: generateShapes_def sortedShapes_star_ellipse generateShape_star_red
      generateShape_ellipse_green)

section \<open>Ordering of a batch\<close>

lemma insert_by_insort:
  "insert_by compare_zIndex a bs = insort_key zIndex_or_0 a bs"
  by (induction bs) (auto simp: compare_zIndex_def)

lemma Array_sort_sort_key:
  "Array_sort compare_zIndex xs = sort_key zIndex_or_0 xs"
  by (induction xs) (simp_all add: insert_by_insort)

lemma loop_acc:
  "generateShapes_loop h cs acc =
     (case generateShapes_loop h cs [] of Inl e \<Rightarrow> Inl e | Inr ns \<Rightarrow> Inr (acc @ ns))"
proof (induction cs arbitrary: acc)
  case Nil
  show ?case by simp
next
  case (Cons c cs)
  show ?case
  proof (cases "generateShape h c")
    case (Inl e)
    then show ?thesis by simp
  next
    case (Inr n)
    then show ?thesis
      using Cons.IH [of "acc @ [n]"] Cons.IH [of "[n]"]
      by (simp split: sum.splits)
  qed
qed

lemma loop_Cons:
  "generateShapes_loop h (c # cs) [] =
     (case generateShape h c of
        Inl e \<Rightarrow> Inl e
      | Inr n \<Rightarrow> (case generateShapes_loop h cs [] of Inl e \<Rightarrow> Inl e | Inr ms \<Rightarrow> Inr (n # ms)))"
  using loop_acc [of h cs "[n]" for n] by (simp split: sum.splits)

lemma loop_Inr_iff:
  "generateShapes_loop h cs [] = Inr ns \<longleftrightarrow> map (generateShape h) cs = map Inr ns"
proof (induction cs arbitrary: ns)
  case Nil
  show ?case by auto
next
  case (Cons c cs)
  show ?case
  proof (cases ns)
    case Nil
    then show ?thesis
      by (simp add: loop_Cons del: generateShapes_loop.simps split: sum.splits)
  next
    case (Cons m ms)
    have IH': "map (generateShape h) cs = map Inr ms' \<longleftrightarrow> generateShapes_loop h cs [] = Inr ms'"
      for ms' using Cons.IH [of ms'] by simp
    from Cons show ?thesis
      by (auto simp add: loop_Cons IH' simp del: generateShapes_loop.simps
          split: sum.splits)
  qed
qed

text \<open>
  C1. The batch is processed in the order \<open>sortedShapes\<close>: ascending in
  \<open>zIndex ?? 0\<close>, a rearrangement of the input, and stable, which is to say that for
  every key the entries with that key appear in the same order as in the input,
  whatever the other entries are. The nodes of a successful call are the nodes of the
  sorted entries, position by position.
\<close>

theorem generateShapes_stable_order:
  "sorted (map zIndex_or_0 (sortedShapes B))
   \<and> mset (sortedShapes B) = mset (shapes B)
   \<and> filter (\<lambda>c. zIndex_or_0 c = k) (sortedShapes B) = filter (\<lambda>c. zIndex_or_0 c = k) (shapes B)
   \<and> (generateShapes h B = Inr ns \<longrightarrow> map (generateShape h) (sortedShapes B) = map Inr ns)"
  by (simp add: sortedShapes_def Array_sort_sort_key sort_key_stable generateShapes_def
      loop_Inr_iff)

theorem generateShapes_stable_order_witness:
  "generateShapes figma star_ellipse = Inr [ellipse_green_node, star_red_node]
   \<and> map (generateShape figma) (sortedShapes star_ellipse)
       = map Inr [ellipse_green_node, star_red_node]
   \<and> sorted (map zIndex_or_0 (sortedShapes star_ellipse))
   \<and> filter (\<lambda>c. zIndex_or_0 c = 2) (sortedShapes star_ellipse) = [star_red]"
proof -
  have h: "generateShapes figma star_ellipse = Inr [ellipse_green_node, star_red_node]"
    by (rule generateShapes_star_ellipse)
  have f: "filter (\<lambda>c. zIndex_or_0 c = 2) (shapes star_ellipse) = [star_red]"
    by (simp add: zIndex_or_0_def example_defs)
  show ?thesis
    using h f generateShapes_stable_order
      [of star_ellipse 2 figma "[ellipse_green_node, star_red_node]"]
    by simp
qed

section \<open>Length and kinds of a batch result\<close>

lemma create_base_kind:
  "create_base h c = Inr n \<Longrightarrow> kind_of_type (cfg_type c) = Some (n_kind n)"
  by (auto simp: create_base_def kind_of_type_def create_def Let_def split: if_splits)

lemma apply_fill_kind: "apply_fill h c n = Inr n' \<Longrightarrow> n_kind n' = n_kind n"
  by (auto simp: apply_fill_def Let_def split: if_splits sum.splits)

lemma apply_stroke_kind: "apply_stroke h c n = Inr n' \<Longrightarrow> n_kind n' = n_kind n"
  by (auto simp: apply_stroke_def Let_def split: if_splits sum.splits)

lemma generateShape_kind:
  assumes "generateShape h c = Inr n"
  shows "kind_of_type (cfg_type c) = Some (n_kind n)"
proof -
  from assms obtain n0 n1 where b: "create_base h c = Inr n0"
    and f: "apply_fill h c
              (if has_resize h (n_kind n0)
               then n0\<lparr>n_x := Some (cfg_x c), n_y := Some (cfg_y c),
                        n_size := Some (cfg_width c, cfg_height c)\<rparr>
               else n0\<lparr>n_x := Some (cfg_x c), n_y := Some (cfg_y c)\<rparr>) = Inr n1"
    and s: "apply_stroke h c n1 = Inr n"
    by (auto simp: generateShape_def Let_def split: sum.splits if_splits)
  have "n_kind n = n_kind n1" using s by (rule apply_stroke_kind)
  also have "\<dots> = n_kind n0" using apply_fill_kind [OF f] by (simp split: if_splits)
  finally show ?thesis using create_base_kind [OF b] by simp
qed

lemma set_sortedShapes: "set (sortedShapes B) = set (shapes B)"
  by (simp add: sortedShapes_def Array_sort_sort_key)

lemma length_sortedShapes: "length (sortedShapes B) = length (shapes B)"
  by (simp add: sortedShapes_def Array_sort_sort_key)

lemma generateShapes_Inr_iff:
  "generateShapes h B = Inr ns \<longleftrightarrow> map (generateShape h) (sortedShapes B) = map Inr ns"
  by (simp add: generateShapes_def loop_Inr_iff)

text \<open>
  C2. A successful \<open>generateShapes\<close> returns as many nodes as the batch has entries,
  and the kind of the node at each position is the one named by the \<open>type\<close> of the
  entry at that position of the sorted input.
\<close>

theorem generateShapes_length_kind:
  assumes "generateShapes h B = Inr ns"
  shows "length ns = length (shapes B)
       \<and> (\<forall>i < length ns. kind_of_type (cfg_type (sortedShapes B ! i)) = Some (n_kind (ns ! i)))"
proof -
  have m: "map (generateShape h) (sortedShapes B) = map Inr ns"
    using assms by (simp add: generateShapes_Inr_iff)
  then have len: "length (sortedShapes B) = length ns"
    by (rule map_eq_imp_length_eq)
  have "kind_of_type (cfg_type (sortedShapes B ! i)) = Some (n_kind (ns ! i))"
    if "i < length ns" for i
  proof -
    have "map (generateShape h) (sortedShapes B) ! i = map Inr ns ! i"
      using m by simp
    then have "generateShape h (sortedShapes B ! i) = Inr (ns ! i)"
      using that len by simp
    then show ?thesis by (rule generateShape_kind)
  qed
  then show ?thesis using len by (simp add: length_sortedShapes)
qed

theorem generateShapes_length_kind_witness:
  "generateShapes figma star_ellipse = Inr [ellipse_green_node, star_red_node]
   \<and> length [ellipse_green_node, star_red_node] = length (shapes star_ellipse)
   \<and> kind_of_type (cfg_type (sortedShapes star_ellipse ! 0)) = Some Ellipse
   \<and> kind_of_type (cfg_type (sortedShapes star_ellipse ! 1)) = Some Star"
proof -
  have h: "generateShapes figma star_ellipse = Inr [ellipse_green_node, star_red_node]"
    by (rule generateShapes_star_ellipse)
  have k: "n_kind ellipse_green_node = Ellipse" "n_kind star_red_node = Star"
    by (simp_all add: example_defs create_def)
  note t = generateShapes_length_kind [OF h]
  have q: "i < length [ellipse_green_node, star_red_node] \<Longrightarrow>
      kind_of_type (cfg_type (sortedShapes star_ellipse ! i))
        = Some (n_kind ([ellipse_green_node, star_red_node] ! i))" for i
    using t by blast
  have a: "kind_of_type (cfg_type (sortedShapes star_ellipse ! 0)) = Some Ellipse"
    and b: "kind_of_type (cfg_type (sortedShapes star_ellipse ! 1)) = Some Star"
    using q [of 0] q [of 1] k by simp_all
  have l: "length [ellipse_green_node, star_red_node] = length (shapes star_ellipse)"
    using t by blast
  from h l a b show ?thesis by blast
qed

section \<open>Failure of a batch\<close>

lemma loop_Inl:
  "generateShapes_loop h cs [] = Inl e \<Longrightarrow> \<exists>c \<in> set cs. generateShape h c = Inl e"
proof (induction cs)
  case Nil
  then show ?case by simp
next
  case (Cons c cs)
  then show ?case
    unfolding loop_Cons by (auto split: sum.splits)
qed

lemma generateShapes_Inl:
  "generateShapes h B = Inl e \<Longrightarrow> \<exists>c \<in> set (shapes B). generateShape h c = Inl e"
  using loop_Inl [of h "sortedShapes B" e] by (simp add: generateShapes_def set_sortedShapes)

lemma generateShapes_fails:
  assumes "c \<in> set (shapes B)" and "generateShape h c = Inl e"
  shows "\<exists>e'. generateShapes h B = Inl e'"
proof (cases "generateShapes h B")
  case (Inl e')
  then show ?thesis by blast
next
  case (Inr ns)
  then have "map (generateShape h) (sortedShapes B) = map Inr ns"
    by (simp add: generateShapes_Inr_iff)
  moreover have "generateShape h c \<in> set (map (generateShape h) (sortedShapes B))"
    using assms(1) by (simp add: set_sortedShapes)
  ultimately have "Inl e \<in> set (map Inr ns)"
    using assms(2) by simp
  then show ?thesis by auto
qed

lemma generateShape_constructed_Inr:
  "generateShape h c = Inr n \<Longrightarrow> generateShape_constructed h c = [n]"
  by (auto simp: generateShape_def generateShape_constructed_def placed_def Let_def
      split: sum.splits if_splits)

lemma generateShape_constructed_base:
  "create_base h c = Inl e \<Longrightarrow> generateShape_constructed h c = []"
  by (simp add: generateShape_constructed_def)

lemma loop_constructed_Inl:
  "generateShapes_loop h cs [] = Inl e \<Longrightarrow>
   \<exists>pre f rest ns. cs = pre @ f # rest \<and> map (generateShape h) pre = map Inr ns
      \<and> generateShape h f = Inl e
      \<and> generateShapes_loop_constructed h cs = ns @ generateShape_constructed h f"
proof (induction cs)
  case Nil
  then show ?case by simp
next
  case (Cons c cs)
  show ?case
  proof (cases "generateShape h c")
    case (Inl e0)
    then have "e0 = e"
      using Cons.prems unfolding loop_Cons by simp
    then have "c # cs = [] @ c # cs \<and> map (generateShape h) [] = map Inr []
        \<and> generateShape h c = Inl e
        \<and> generateShapes_loop_constructed h (c # cs) = [] @ generateShape_constructed h c"
      using Inl by simp
    then show ?thesis by blast
  next
    case (Inr n)
    then have "generateShapes_loop h cs [] = Inl e"
      using Cons.prems unfolding loop_Cons by (simp split: sum.splits)
    then obtain pre f rest ns where p: "cs = pre @ f # rest"
      "map (generateShape h) pre = map Inr ns" "generateShape h f = Inl e"
      "generateShapes_loop_constructed h cs = ns @ generateShape_constructed h f"
      using Cons.IH by blast
    have "c # cs = (c # pre) @ f # rest \<and> map (generateShape h) (c # pre) = map Inr (n # ns)
        \<and> generateShape h f = Inl e
        \<and> generateShapes_loop_constructed h (c # cs) = (n # ns) @ generateShape_constructed h f"
      using p Inr by (simp add: generateShape_constructed_Inr)
    then show ?thesis by blast
  qed
qed

lemma onmessage_batch_failure:
  assumes "msg_type m = ''create-shape-from-json''" and "msg_config m = Some (Multi B)"
    and "generateShapes h B = Inl e"
  shows "onmessage h m st = (host_constructs (generateShapes_constructed h B) st, Some e)"
  using assms by (simp add: onmessage_def on_create_shape_from_json_def)

lemma host_constructs_fields:
  "currentPage_children (host_constructs ns st) = currentPage_children st"
  "currentPage_selection (host_constructs ns st) = currentPage_selection st"
  "viewport_focus (host_constructs ns st) = viewport_focus st"
  "plugin_closed (host_constructs ns st) = plugin_closed st"
  "constructed (host_constructs ns st) = constructed st @ ns"
  by (simp_all add: host_constructs_def)

lemma on_page_host_constructs:
  "on_page h (host_constructs ns st) =
     on_page h st \<union> (if constructors_parent h then set ns else {})"
  by (auto simp add: on_page_def host_constructs_def)

text \<open>
  C3, as the script has it. If \<open>generateShape\<close> fails on some entry of a batch,
  \<open>generateShapes\<close> fails as a whole, with the error of the first failing entry of the
  sorted batch and without a list of nodes, and the handler of a
  \<open>create-shape-from-json\<close> message with that batch calls neither \<open>appendChild\<close> nor
  sets the selection or the viewport. What it leaves behind are the nodes the host has
  constructed up to the failure: those of the entries sorted before the failing one, and
  what the failing call itself had constructed. The page is unchanged when the
  constructors of the host do not parent the nodes they make.
\<close>

theorem generateShapes_fail_fast:
  assumes "c \<in> set (shapes B)" and "generateShape h c = Inl e"
    and "msg_type m = ''create-shape-from-json''" and "msg_config m = Some (Multi B)"
  shows "\<exists>e'. generateShapes h B = Inl e'
             \<and> (\<exists>d \<in> set (shapes B). generateShape h d = Inl e')
             \<and> onmessage h m st = (host_constructs (generateShapes_constructed h B) st, Some e')
             \<and> currentPage_children (fst (onmessage h m st)) = currentPage_children st
             \<and> currentPage_selection (fst (onmessage h m st)) = currentPage_selection st
             \<and> viewport_focus (fst (onmessage h m st)) = viewport_focus st
             \<and> (\<exists>pre f rest ns. sortedShapes B = pre @ f # rest
                   \<and> map (generateShape h) pre = map Inr ns
                   \<and> generateShape h f = Inl e'
                   \<and> generateShapes_constructed h B = ns @ generateShape_constructed h f)
             \<and> (\<not> constructors_parent h \<longrightarrow> on_page h (fst (onmessage h m st)) = on_page h st)"
proof -
  obtain e' where f: "generateShapes h B = Inl e'"
    using generateShapes_fails [OF assms(1,2)] by blast
  have d: "\<exists>d \<in> set (shapes B). generateShape h d = Inl e'"
    using f by (rule generateShapes_Inl)
  have o: "onmessage h m st = (host_constructs (generateShapes_constructed h B) st, Some e')"
    using assms(3,4) f by (rule onmessage_batch_failure)
  have p: "\<exists>pre f rest ns. sortedShapes B = pre @ f # rest
      \<and> map (generateShape h) pre = map Inr ns \<and> generateShape h f = Inl e'
      \<and> generateShapes_constructed h B = ns @ generateShape_constructed h f"
    using f loop_constructed_Inl [of h "sortedShapes B" e']
    by (simp add: generateShapes_def generateShapes_constructed_def)
  have "currentPage_children (fst (onmessage h m st)) = currentPage_children st"
    and "currentPage_selection (fst (onmessage h m st)) = currentPage_selection st"
    and "viewport_focus (fst (onmessage h m st)) = viewport_focus st"
    and "\<not> constructors_parent h \<longrightarrow> on_page h (fst (onmessage h m st)) = on_page h st"
    by (simp_all add: o host_constructs_fields on_page_host_constructs)
  then show ?thesis using f d o p by blast
qed

lemma sortedShapes_star_kite_ellipse:
  "sortedShapes star_kite_ellipse = [kite, ellipse_green, star_red]"
  by (simp add: sortedShapes_def compare_zIndex_def zIndex_or_0_def example_defs)

lemma generateShapes_star_kite_ellipse:
  "generateShapes figma star_kite_ellipse = Inl UnsupportedShapeType"
  by (simp add: generateShapes_def sortedShapes_star_kite_ellipse generateShape_kite)

lemma generateShape_constructed_kite: "generateShape_constructed h kite = []"
  by (simp add: generateShape_constructed_def create_base_def kite_def blank_def)

lemma generateShapes_constructed_star_kite_ellipse:
  "generateShapes_constructed h star_kite_ellipse = []"
  by (simp add: generateShapes_constructed_def sortedShapes_star_kite_ellipse generateShape_kite
      generateShape_constructed_kite)

lemma generateShape_kite_front: "generateShape h kite_front = Inl UnsupportedShapeType"
  by (simp add: shape_defs example_defs)

lemma sortedShapes_kite_ellipse: "sortedShapes kite_ellipse = [ellipse_green, kite_front]"
  by (simp add: sortedShapes_def compare_zIndex_def zIndex_or_0_def example_defs)

lemma generateShapes_kite_ellipse: "generateShapes figma kite_ellipse = Inl UnsupportedShapeType"
  by (simp add: generateShapes_def sortedShapes_kite_ellipse generateShape_ellipse_green
      generateShape_kite_front)

lemma generateShape_constructed_kite_front: "generateShape_constructed h kite_front = []"
  by (simp add: generateShape_constructed_def create_base_def kite_front_def kite_def blank_def)

lemma generateShapes_constructed_kite_ellipse:
  "generateShapes_constructed figma kite_ellipse = [ellipse_green_node]"
  by (simp add: generateShapes_constructed_def sortedShapes_kite_ellipse
      generateShape_ellipse_green generateShape_constructed_Inr [OF generateShape_ellipse_green]
      generateShape_kite_front generateShape_constructed_kite_front)

theorem generateShapes_fail_fast_witness:
  "kite_front \<in> set (shapes kite_ellipse)
   \<and> generateShape figma kite_front = Inl UnsupportedShapeType
   \<and> generateShapes figma kite_ellipse = Inl UnsupportedShapeType
   \<and> onmessage figma (json_msg (Multi kite_ellipse)) empty_state
       = (empty_state\<lparr>constructed := [ellipse_green_node]\<rparr>, Some UnsupportedShapeType)
   \<and> currentPage_children (fst (onmessage figma (json_msg (Multi kite_ellipse)) empty_state)) = []
   \<and> \<not> constructors_parent (figma\<lparr>constructors_parent := False\<rparr>)
   \<and> on_page (figma\<lparr>constructors_parent := False\<rparr>)
         (fst (onmessage (figma\<lparr>constructors_parent := False\<rparr>)
                (json_msg (Multi kite_ellipse)) empty_state)) = {}"
proof -
  have a: "kite_front \<in> set (shapes kite_ellipse)"
    by (simp add: kite_ellipse_def)
  have b: "generateShape figma kite_front = Inl UnsupportedShapeType"
    by (rule generateShape_kite_front)
  have c: "msg_type (json_msg (Multi kite_ellipse)) = ''create-shape-from-json''"
    and d: "msg_config (json_msg (Multi kite_ellipse)) = Some (Multi kite_ellipse)"
    by (simp_all add: json_msg_def)
  obtain e' where e: "generateShapes figma kite_ellipse = Inl e'"
    and o: "onmessage figma (json_msg (Multi kite_ellipse)) empty_state
        = (host_constructs (generateShapes_constructed figma kite_ellipse) empty_state, Some e')"
    and p: "currentPage_children (fst (onmessage figma (json_msg (Multi kite_ellipse)) empty_state))
        = currentPage_children empty_state"
    using generateShapes_fail_fast [OF a b c d, of empty_state] by blast
  have "e' = UnsupportedShapeType"
    using e by (simp add: generateShapes_kite_ellipse)
  moreover have "host_constructs (generateShapes_constructed figma kite_ellipse) empty_state
      = empty_state\<lparr>constructed := [ellipse_green_node]\<rparr>"
    by (simp add: generateShapes_constructed_kite_ellipse host_constructs_def empty_state_def)
  moreover have "currentPage_children empty_state = []"
    by (simp add: empty_state_def)
  moreover have "\<not> constructors_parent (figma\<lparr>constructors_parent := False\<rparr>)"
    by simp
  moreover have "on_page (figma\<lparr>constructors_parent := False\<rparr>)
         (fst (onmessage (figma\<lparr>constructors_parent := False\<rparr>)
                (json_msg (Multi kite_ellipse)) empty_state)) = {}"
  proof -
    have "on_page (figma\<lparr>constructors_parent := False\<rparr>)
         (fst (onmessage (figma\<lparr>constructors_parent := False\<rparr>)
                (json_msg (Multi kite_ellipse)) empty_state))
        = on_page (figma\<lparr>constructors_parent := False\<rparr>) empty_state"
      using generateShapes_fail_fast
        [OF a generateShape_kite_front c d, of "figma\<lparr>constructors_parent := False\<rparr>"
          empty_state]
      by auto
    then show ?thesis by (simp add: on_page_def empty_state_def)
  qed
  ultimately show ?thesis using a b e o p by simp
qed

theorem partial_batch_counterexample:
  "kite_front \<in> set (shapes kite_ellipse)
   \<and> generateShape figma kite_front = Inl UnsupportedShapeType
   \<and> generateShape figma ellipse_green = Inr ellipse_green_node
   \<and> sortedShapes kite_ellipse = [ellipse_green, kite_front]
   \<and> generateShapes figma kite_ellipse = Inl UnsupportedShapeType
   \<and> onmessage figma (json_msg (Multi kite_ellipse)) empty_state
       = (empty_state\<lparr>constructed := [ellipse_green_node]\<rparr>, Some UnsupportedShapeType)
   \<and> constructors_parent figma
   \<and> on_page figma empty_state = {}
   \<and> on_page figma (empty_state\<lparr>constructed := [ellipse_green_node]\<rparr>) = {ellipse_green_node}"
proof -
  have "kite_front \<in> set (shapes kite_ellipse)"
    by (simp add: kite_ellipse_def)
  moreover have "onmessage figma (json_msg (Multi kite_ellipse)) empty_state
       = (empty_state\<lparr>constructed := [ellipse_green_node]\<rparr>, Some UnsupportedShapeType)"
    by (simp add: onmessage_def on_create_shape_from_json_def json_msg_def
        generateShapes_kite_ellipse generateShapes_constructed_kite_ellipse host_constructs_def
        empty_state_def)
  moreover have "constructors_parent figma" and "on_page figma empty_state = {}"
    and "on_page figma (empty_state\<lparr>constructed := [ellipse_green_node]\<rparr>) = {ellipse_green_node}"
    by (simp_all add: on_page_def empty_state_def figma_def)
  ultimately show ?thesis
    using generateShape_kite_front [of figma] generateShape_ellipse_green
      sortedShapes_kite_ellipse generateShapes_kite_ellipse
    by blast
qed

section \<open>Unsupported shape types\<close>

lemma create_base_unsupported:
  "cfg_type c \<notin> supported_types \<Longrightarrow> create_base h c = Inl UnsupportedShapeType"
  by (simp add: create_base_def supported_types_def)

lemma generateShape_unsupported:
  "cfg_type c \<notin> supported_types \<Longrightarrow> generateShape h c = Inl UnsupportedShapeType"
  by (simp add: generateShape_def create_base_unsupported)

text \<open>
  C4. A configuration whose \<open>type\<close> is outside the seven supported ones makes
  \<open>generateShape\<close> fail with \<open>UnsupportedShapeType\<close>. A batch that contains such an entry
  fails, and the handler reports the error without a call of \<open>appendChild\<close> and
  without setting the selection or the viewport; when every entry with a supported type
  is valid, the error of the batch is \<open>UnsupportedShapeType\<close>.
\<close>

theorem unsupported_type_fails:
  assumes "cfg_type c \<notin> supported_types"
  shows "generateShape h c = Inl UnsupportedShapeType
       \<and> (c \<in> set (shapes B) \<longrightarrow>
            (\<exists>e. generateShapes h B = Inl e
                \<and> onmessage h (json_msg (Multi B)) st
                    = (host_constructs (generateShapes_constructed h B) st, Some e)
                \<and> currentPage_children (fst (onmessage h (json_msg (Multi B)) st))
                    = currentPage_children st
                \<and> currentPage_selection (fst (onmessage h (json_msg (Multi B)) st))
                    = currentPage_selection st
                \<and> viewport_focus (fst (onmessage h (json_msg (Multi B)) st)) = viewport_focus st)
          \<and> ((\<forall>d \<in> set (shapes B). cfg_type d \<in> supported_types \<longrightarrow> \<not> isl (generateShape h d))
               \<longrightarrow> generateShapes h B = Inl UnsupportedShapeType))"
proof -
  have u: "generateShape h c = Inl UnsupportedShapeType"
    using assms by (rule generateShape_unsupported)
  have batch: "\<exists>e. generateShapes h B = Inl e
      \<and> onmessage h (json_msg (Multi B)) st
          = (host_constructs (generateShapes_constructed h B) st, Some e)
      \<and> currentPage_children (fst (onmessage h (json_msg (Multi B)) st))
          = currentPage_children st
      \<and> currentPage_selection (fst (onmessage h (json_msg (Multi B)) st))
          = currentPage_selection st
      \<and> viewport_focus (fst (onmessage h (json_msg (Multi B)) st)) = viewport_focus st"
    if cin: "c \<in> set (shapes B)"
  proof -
    obtain e where f: "generateShapes h B = Inl e"
      using generateShapes_fails [OF cin u] by blast
    have o: "onmessage h (json_msg (Multi B)) st
        = (host_constructs (generateShapes_constructed h B) st, Some e)"
      using f by (intro onmessage_batch_failure) (simp_all add: json_msg_def)
    show ?thesis using f by (simp add: o host_constructs_fields)
  qed
  have kind: "generateShapes h B = Inl UnsupportedShapeType"
    if cin: "c \<in> set (shapes B)"
      and ok: "\<forall>d \<in> set (shapes B). cfg_type d \<in> supported_types \<longrightarrow> \<not> isl (generateShape h d)"
  proof -
    obtain e where f: "generateShapes h B = Inl e"
      using generateShapes_fails [OF cin u] by blast
    then obtain d where d: "d \<in> set (shapes B)" "generateShape h d = Inl e"
      using generateShapes_Inl by blast
    then have "cfg_type d \<notin> supported_types"
      using ok by auto
    then have "generateShape h d = Inl UnsupportedShapeType"
      by (rule generateShape_unsupported)
    then show ?thesis using d f by simp
  qed
  show ?thesis using u batch kind by blast
qed

theorem unsupported_type_fails_witness:
  "cfg_type kite \<notin> supported_types
   \<and> generateShape figma kite = Inl UnsupportedShapeType
   \<and> generateShapes figma star_kite_ellipse = Inl UnsupportedShapeType
   \<and> onmessage figma (json_msg (Multi star_kite_ellipse)) empty_state
       = (empty_state, Some UnsupportedShapeType)"
proof -
  have a: "cfg_type kite \<notin> supported_types"
    by (simp add: kite_def blank_def supported_types_def)
  have b: "kite \<in> set (shapes star_kite_ellipse)"
    by (simp add: star_kite_ellipse_def)
  have ok: "\<forall>d \<in> set (shapes star_kite_ellipse).
      cfg_type d \<in> supported_types \<longrightarrow> \<not> isl (generateShape figma d)"
    using a by (simp add: star_kite_ellipse_def generateShape_star_red
        generateShape_ellipse_green)
  note t = unsupported_type_fails [OF a, of figma star_kite_ellipse empty_state]
  have g: "generateShapes figma star_kite_ellipse = Inl UnsupportedShapeType"
    using t b ok by blast
  moreover have "host_constructs (generateShapes_constructed figma star_kite_ellipse) empty_state
      = empty_state"
    by (simp add: generateShapes_constructed_star_kite_ellipse host_constructs_def
        empty_state_def)
  then have "onmessage figma (json_msg (Multi star_kite_ellipse)) empty_state
       = (empty_state, Some UnsupportedShapeType)"
    using t b g by auto
  ultimately show ?thesis using a t by blast
qed

section \<open>A single shape and a batch of one\<close>

lemma generateShapes_single:
  "generateShapes h \<lparr>shapes = [c]\<rparr> =
     (case generateShape h c of Inl e \<Rightarrow> Inl e | Inr n \<Rightarrow> Inr [n])"
  by (simp add: generateShapes_def sortedShapes_def split: sum.splits)

lemma generateShapes_constructed_single:
  "generateShapes_constructed h \<lparr>shapes = [c]\<rparr> = generateShape_constructed h c"
  by (simp add: generateShapes_constructed_def sortedShapes_def split: sum.splits)

text \<open>
  C8. The batch with the single entry \<open>c\<close> yields exactly the one-element list of the
  node that \<open>generateShape\<close> yields for \<open>c\<close> (and fails with the same error when
  that fails), and the handler reaches the same host state on both forms of the request.
\<close>

theorem single_shape_equivalence:
  "generateShapes h \<lparr>shapes = [c]\<rparr> =
     (case generateShape h c of Inl e \<Rightarrow> Inl e | Inr n \<Rightarrow> Inr [n])
   \<and> onmessage h (m\<lparr>msg_config := Some (Multi \<lparr>shapes = [c]\<rparr>)\<rparr>) st
     = onmessage h (m\<lparr>msg_config := Some (Single c)\<rparr>) st"
  by (simp add: generateShapes_single generateShapes_constructed_single onmessage_def
      on_create_shape_from_json_def split: sum.splits)

section \<open>Properties of colour resolution\<close>

lemma hexval_toLowerCase_char: "hexval (toLowerCase_char c) = hexval c"
  by (simp add: toLowerCase_char_def hexval_def)

lemma toLowerCase_char_hash: "toLowerCase_char c = CHR ''#'' \<longleftrightarrow> c = CHR ''#''"
  by (simp add: toLowerCase_char_def)

lemma in_class_spec: "in_class c \<longleftrightarrow> spec_hexdigit c"
  by (simp add: in_class_def hexval_def spec_hexdigit_def)

lemma hexval_spec_digit: "spec_hexdigit c \<Longrightarrow> hexval c = Some (spec_digit c)"
  by (auto simp add: hexval_def spec_hexdigit_def spec_digit_def)

lemma spec_digit_less: "spec_hexdigit c \<Longrightarrow> spec_digit c < 16"
  by (auto simp add: spec_hexdigit_def spec_digit_def)

lemma spec_hexdigit_cases:
  "spec_hexdigit c \<Longrightarrow>
     c = CHR ''0'' \<or> c = CHR ''1'' \<or> c = CHR ''2'' \<or> c = CHR ''3''
     \<or> c = CHR ''4'' \<or> c = CHR ''5'' \<or> c = CHR ''6'' \<or> c = CHR ''7''
     \<or> c = CHR ''8'' \<or> c = CHR ''9'' \<or> c = CHR ''a'' \<or> c = CHR ''b''
     \<or> c = CHR ''c'' \<or> c = CHR ''d'' \<or> c = CHR ''e'' \<or> c = CHR ''f''
     \<or> c = CHR ''A'' \<or> c = CHR ''B'' \<or> c = CHR ''C'' \<or> c = CHR ''D''
     \<or> c = CHR ''E'' \<or> c = CHR ''F''"
  by (simp add: spec_hexdigit_def)

lemma toLowerCase_char_spec_digit:
  "spec_hexdigit c \<Longrightarrow> toLowerCase_char c = ''0123456789abcdef'' ! spec_digit c"
  by (drule spec_hexdigit_cases) (elim disjE; simp add: spec_digit_def toLowerCase_char_def)

lemma spec_digit_inj:
  "spec_hexdigit c \<Longrightarrow> spec_hexdigit d \<Longrightarrow> spec_digit c = spec_digit d
     \<Longrightarrow> toLowerCase_char c = toLowerCase_char d"
  by (simp add: toLowerCase_char_spec_digit)

lemma body_spec_strip_hash: "(if startsWith_hash s then tl s else s) = spec_strip_hash s"
  by (cases s) (simp_all add: startsWith_hash_def spec_strip_hash_def)

lemma length6: "length xs = 6 \<longleftrightarrow> (\<exists>a1 a2 b1 b2 c1 c2. xs = [a1, a2, b1, b2, c1, c2])"
  by (auto simp add: numeral_eq_Suc length_Suc_conv)

lemma regex_exec_six:
  "spec_strip_hash s = [a1, a2, b1, b2, c1, c2] \<Longrightarrow>
   regex_exec s =
     (if spec_hexdigit a1 \<and> spec_hexdigit a2 \<and> spec_hexdigit b1 \<and> spec_hexdigit b2
         \<and> spec_hexdigit c1 \<and> spec_hexdigit c2
      then Some ([a1, a2], [b1, b2], [c1, c2]) else None)"
  by (simp add: regex_exec_def body_spec_strip_hash in_class_spec)

lemma regex_exec_not_six: "length (spec_strip_hash s) \<noteq> 6 \<Longrightarrow> regex_exec s = None"
  by (auto simp add: regex_exec_def body_spec_strip_hash split: list.splits)

lemma regex_exec_spec: "regex_exec s \<noteq> None \<longleftrightarrow> spec_hex6 s"
proof (cases "length (spec_strip_hash s) = 6")
  case True
  then obtain a1 a2 b1 b2 c1 c2 where "spec_strip_hash s = [a1, a2, b1, b2, c1, c2]"
    unfolding length6 by blast
  then show ?thesis by (simp add: regex_exec_six spec_hex6_def)
next
  case False
  then show ?thesis by (simp add: regex_exec_not_six spec_hex6_def)
qed

lemma parseInt16_pair:
  "spec_hexdigit a \<Longrightarrow> spec_hexdigit b \<Longrightarrow> parseInt16 [a, b] = 16 * spec_digit a + spec_digit b"
  by (simp add: parseInt16_def hexval_spec_digit)

lemma hexToRgb_spec:
  assumes "spec_hex6 s"
  shows "hexToRgb s = Inr (RGB (of_nat (spec_byte 0 s) / 255) (of_nat (spec_byte 1 s) / 255)
                               (of_nat (spec_byte 2 s) / 255))"
proof -
  from assms obtain a1 a2 b1 b2 c1 c2 where b: "spec_strip_hash s = [a1, a2, b1, b2, c1, c2]"
    unfolding spec_hex6_def length6 by blast
  with assms have d: "spec_hexdigit a1" "spec_hexdigit a2" "spec_hexdigit b1" "spec_hexdigit b2"
    "spec_hexdigit c1" "spec_hexdigit c2"
    by (simp_all add: spec_hex6_def)
  show ?thesis
    using d by (simp add: hexToRgb_def regex_exec_six [OF b] parseInt16_pair spec_byte_def b)
qed

lemma spec_byte_le:
  assumes "spec_hex6 s" and "i < 3"
  shows "spec_byte i s \<le> 255"
proof -
  from assms(1) obtain a1 a2 b1 b2 c1 c2 where b: "spec_strip_hash s = [a1, a2, b1, b2, c1, c2]"
    unfolding spec_hex6_def length6 by blast
  with assms(1) have d: "spec_digit a1 < 16" "spec_digit a2 < 16" "spec_digit b1 < 16"
    "spec_digit b2 < 16" "spec_digit c1 < 16" "spec_digit c2 < 16"
    by (simp_all add: spec_hex6_def spec_digit_less)
  from assms(2) consider "i = 0" | "i = 1" | "i = 2" by linarith
  then show ?thesis using d by cases (simp_all add: spec_byte_def b)
qed

lemma hexToRgb_Inr_iff: "(\<exists>c. hexToRgb s = Inr c) \<longleftrightarrow> spec_hex6 s"
  using regex_exec_spec [of s] by (auto simp add: hexToRgb_def split: option.splits)

lemma hexToRgb_error: "\<not> spec_hex6 s \<Longrightarrow> hexToRgb s = Inl InvalidColor"
  using regex_exec_spec [of s] by (cases "regex_exec s") (auto simp add: hexToRgb_def)

lemma startsWith_hash_toLowerCase: "startsWith_hash (toLowerCase s) = startsWith_hash s"
  by (cases s) (simp_all add: startsWith_hash_def toLowerCase_def toLowerCase_char_hash)

lemma spec_strip_hash_toLowerCase:
  "spec_strip_hash (toLowerCase s) = toLowerCase (spec_strip_hash s)"
  by (cases s) (simp_all add: spec_strip_hash_def toLowerCase_def toLowerCase_char_hash)

lemma spec_hexdigit_toLowerCase_char: "spec_hexdigit (toLowerCase_char c) = spec_hexdigit c"
  using hexval_toLowerCase_char [of c] by (simp add: in_class_spec [symmetric] in_class_def)

lemma spec_digit_toLowerCase_char:
  "spec_hexdigit c \<Longrightarrow> spec_digit (toLowerCase_char c) = spec_digit c"
  using hexval_toLowerCase_char [of c] hexval_spec_digit [of c]
    hexval_spec_digit [of "toLowerCase_char c"]
  by (simp add: spec_hexdigit_toLowerCase_char)

lemma hexToRgb_toLowerCase: "hexToRgb (toLowerCase s) = hexToRgb s"
proof (cases "spec_hex6 s")
  case True
  then obtain a1 a2 b1 b2 c1 c2 where b: "spec_strip_hash s = [a1, a2, b1, b2, c1, c2]"
    unfolding spec_hex6_def length6 by blast
  with True have d: "spec_hexdigit a1" "spec_hexdigit a2" "spec_hexdigit b1" "spec_hexdigit b2"
    "spec_hexdigit c1" "spec_hexdigit c2"
    by (simp_all add: spec_hex6_def)
  have l: "spec_hex6 (toLowerCase s)"
    unfolding spec_hex6_def spec_strip_hash_toLowerCase b
    using d by (simp add: toLowerCase_def spec_hexdigit_toLowerCase_char)
  show ?thesis
    unfolding hexToRgb_spec [OF True] hexToRgb_spec [OF l] spec_byte_def
      spec_strip_hash_toLowerCase b
    using d by (simp add: toLowerCase_def spec_digit_toLowerCase_char)
next
  case False
  then have "\<not> spec_hex6 (toLowerCase s)"
    unfolding spec_hex6_def spec_strip_hash_toLowerCase
    by (simp add: toLowerCase_def list_all_iff spec_hexdigit_toLowerCase_char)
  then show ?thesis using False by (simp add: hexToRgb_error)
qed

lemma digits_eq:
  fixes a b c d :: nat
  assumes "16 * a + b = 16 * c + d" and "b < 16" and "d < 16"
  shows "a = c \<and> b = d"
proof -
  have "a = c" using assms by linarith
  moreover from this have "b = d" using assms by linarith
  ultimately show ?thesis by blast
qed

lemma hexToRgb_inj:
  assumes s: "spec_hex6 s" and t: "spec_hex6 t" and eq: "hexToRgb s = hexToRgb t"
  shows "toLowerCase (spec_strip_hash s) = toLowerCase (spec_strip_hash t)"
proof -
  from s obtain a1 a2 b1 b2 c1 c2 where bs: "spec_strip_hash s = [a1, a2, b1, b2, c1, c2]"
    unfolding spec_hex6_def length6 by blast
  from t obtain p1 p2 q1 q2 r1 r2 where bt: "spec_strip_hash t = [p1, p2, q1, q2, r1, r2]"
    unfolding spec_hex6_def length6 by blast
  from s bs have ds: "spec_hexdigit a1" "spec_hexdigit a2" "spec_hexdigit b1" "spec_hexdigit b2"
    "spec_hexdigit c1" "spec_hexdigit c2"
    by (simp_all add: spec_hex6_def)
  from t bt have dt: "spec_hexdigit p1" "spec_hexdigit p2" "spec_hexdigit q1" "spec_hexdigit q2"
    "spec_hexdigit r1" "spec_hexdigit r2"
    by (simp_all add: spec_hex6_def)
  from eq have "spec_byte 0 s = spec_byte 0 t" "spec_byte 1 s = spec_byte 1 t"
    "spec_byte 2 s = spec_byte 2 t"
    by (simp_all add: hexToRgb_spec [OF s] hexToRgb_spec [OF t])
  then have e: "16 * spec_digit a1 + spec_digit a2 = 16 * spec_digit p1 + spec_digit p2"
    "16 * spec_digit b1 + spec_digit b2 = 16 * spec_digit q1 + spec_digit q2"
    "16 * spec_digit c1 + spec_digit c2 = 16 * spec_digit r1 + spec_digit r2"
    by (simp_all add: spec_byte_def bs bt)
  have "spec_digit a1 = spec_digit p1 \<and> spec_digit a2 = spec_digit p2"
    using e(1) by (rule digits_eq) (simp_all add: spec_digit_less ds dt)
  moreover have "spec_digit b1 = spec_digit q1 \<and> spec_digit b2 = spec_digit q2"
    using e(2) by (rule digits_eq) (simp_all add: spec_digit_less ds dt)
  moreover have "spec_digit c1 = spec_digit r1 \<and> spec_digit c2 = spec_digit r2"
    using e(3) by (rule digits_eq) (simp_all add: spec_digit_less ds dt)
  ultimately have "toLowerCase_char a1 = toLowerCase_char p1"
    "toLowerCase_char a2 = toLowerCase_char p2" "toLowerCase_char b1 = toLowerCase_char q1"
    "toLowerCase_char b2 = toLowerCase_char q2" "toLowerCase_char c1 = toLowerCase_char r1"
    "toLowerCase_char c2 = toLowerCase_char r2"
    using ds dt by (simp_all only: toLowerCase_char_spec_digit)
  then show ?thesis
    by (simp add: bs bt toLowerCase_def)
qed

lemma colorNames_Some:
  assumes "colorNames k = Some v"
  shows "\<not> startsWith_hash k \<and> v \<noteq> [] \<and> (k = ''transparent'' \<longrightarrow> v = ''transparent'')
       \<and> (k \<noteq> ''transparent'' \<longrightarrow> spec_hex6 v)"
proof -
  have "(k, v) \<in> set
    [(''transparent'', ''transparent''), (''red'', ''#ff0000''), (''green'', ''#00ff00''),
     (''blue'', ''#0000ff''), (''black'', ''#000000''), (''white'', ''#ffffff''),
     (''gray'', ''#808080''), (''grey'', ''#808080''), (''yellow'', ''#ffff00''),
     (''orange'', ''#ffa500''), (''purple'', ''#800080''), (''pink'', ''#ffc0cb''),
     (''brown'', ''#a52a2a''), (''primary'', ''#007bff''), (''secondary'', ''#6c757d''),
     (''success'', ''#28a745''), (''danger'', ''#dc3545''), (''warning'', ''#ffc107''),
     (''info'', ''#17a2b8''), (''light'', ''#f8f9fa''), (''dark'', ''#343a40'')]"
    using assms unfolding colorNames_def by (rule map_of_SomeD)
  then show ?thesis
    unfolding set_simps insert_iff empty_iff
    by (elim disjE; simp add: startsWith_hash_def spec_hex6_def spec_strip_hash_def
        spec_hexdigit_def)
qed

lemma toLowerCase_transparent: "toLowerCase ''transparent'' = ''transparent''"
  by (simp add: toLowerCase_def toLowerCase_char_def)

lemma normalizeColor_name:
  assumes "colorNames k = Some v" and "toLowerCase name = k"
  shows "normalizeColor name = v"
proof -
  note f = colorNames_Some [OF assms(1)]
  have "\<not> startsWith_hash name"
    using f assms(2) startsWith_hash_toLowerCase [of name] by simp
  moreover have "v = ''transparent''" if "name = ''transparent''"
    using f assms(2) that toLowerCase_transparent by simp
  ultimately show ?thesis
    using f assms by (auto simp add: normalizeColor_def)
qed

text \<open>
  C5. \<open>hexToRgb\<close> succeeds exactly on the strings \<open>^#?[0-9a-fA-F]{6}$\<close>. On them it
  returns the triple of the three digit pairs, each read as a byte and divided by 255,
  so every channel lies between 0 and 1; the result does not depend on the case of the
  letters, and two such strings with the same triple differ at most in case and in the
  optional \<open>#\<close>. A name whose lower-case form is a key of \<open>colorNames\<close> is replaced by
  the entry of that key, so it resolves as the entry does, and every entry other than
  that of \<open>transparent\<close> is such a hex string; \<open>red\<close> and \<open>#ff0000\<close> both give
  \<open>(1, 0, 0)\<close>.
\<close>

theorem color_resolution:
  "((\<exists>c. hexToRgb s = Inr c) \<longleftrightarrow> spec_hex6 s)
   \<and> (spec_hex6 s \<longrightarrow>
        hexToRgb s = Inr (RGB (of_nat (spec_byte 0 s) / 255) (of_nat (spec_byte 1 s) / 255)
                              (of_nat (spec_byte 2 s) / 255))
        \<and> spec_byte 0 s \<le> 255 \<and> spec_byte 1 s \<le> 255 \<and> spec_byte 2 s \<le> 255)
   \<and> (hexToRgb s = Inr c \<longrightarrow>
        0 \<le> red c \<and> red c \<le> 1 \<and> 0 \<le> green c \<and> green c \<le> 1 \<and> 0 \<le> blue c \<and> blue c \<le> 1)
   \<and> hexToRgb (toLowerCase s) = hexToRgb s
   \<and> (spec_hex6 s \<and> spec_hex6 t \<and> hexToRgb s = hexToRgb t \<longrightarrow>
        toLowerCase (spec_strip_hash s) = toLowerCase (spec_strip_hash t))
   \<and> (colorNames k = Some v \<and> toLowerCase name = k \<longrightarrow>
        normalizeColor name = v \<and> hexToRgb (normalizeColor name) = hexToRgb v
        \<and> (k \<noteq> ''transparent'' \<longrightarrow> spec_hex6 v))
   \<and> hexToRgb (normalizeColor ''red'') = Inr (RGB 1 0 0)
   \<and> hexToRgb ''#ff0000'' = Inr (RGB 1 0 0)"
proof -
  have bytes: "spec_byte 0 s \<le> 255 \<and> spec_byte 1 s \<le> 255 \<and> spec_byte 2 s \<le> 255"
    if "spec_hex6 s"
    using that by (simp add: spec_byte_le)
  have range: "0 \<le> red c \<and> red c \<le> 1 \<and> 0 \<le> green c \<and> green c \<le> 1 \<and> 0 \<le> blue c \<and> blue c \<le> 1"
    if r: "hexToRgb s = Inr c"
  proof -
    have h: "spec_hex6 s" using r hexToRgb_Inr_iff by blast
    have "c = RGB (of_nat (spec_byte 0 s) / 255) (of_nat (spec_byte 1 s) / 255)
                  (of_nat (spec_byte 2 s) / 255)"
      using r hexToRgb_spec [OF h] by simp
    then show ?thesis using bytes [OF h] by simp
  qed
  have names: "normalizeColor name = v \<and> hexToRgb (normalizeColor name) = hexToRgb v
        \<and> (k \<noteq> ''transparent'' \<longrightarrow> spec_hex6 v)"
    if "colorNames k = Some v \<and> toLowerCase name = k"
    using that normalizeColor_name [of k v name] colorNames_Some [of k v] by simp
  have red: "hexToRgb (normalizeColor ''red'') = Inr (RGB 1 0 0)"
    and ff: "hexToRgb ''#ff0000'' = Inr (RGB 1 0 0)"
    by (simp_all add: color_defs)
  show ?thesis
    using hexToRgb_Inr_iff [of s] hexToRgb_spec [of s] bytes range hexToRgb_toLowerCase [of s]
      hexToRgb_inj [of s t] names red ff
    by blast
qed

theorem color_resolution_witness:
  "spec_hex6 ''#FFA500'' \<and> spec_hex6 ''ffa500''
   \<and> hexToRgb ''#FFA500'' = Inr (RGB 1 (165 / 255) 0)
   \<and> hexToRgb ''#FFA500'' = hexToRgb ''ffa500''
   \<and> toLowerCase (spec_strip_hash ''#FFA500'') = toLowerCase (spec_strip_hash ''ffa500'')
   \<and> colorNames ''orange'' = Some ''#ffa500''
   \<and> normalizeColor ''Orange'' = ''#ffa500''
   \<and> hexToRgb (normalizeColor ''Orange'') = hexToRgb ''#ffa500''
   \<and> green (RGB 1 (165 / 255) 0) \<le> 1"
proof -
  have a: "spec_hex6 ''#FFA500''" and b: "spec_hex6 ''ffa500''"
    by (simp_all add: spec_hex6_def spec_strip_hash_def spec_hexdigit_def)
  have c: "hexToRgb ''#FFA500'' = Inr (RGB 1 (165 / 255) 0)"
    and d: "hexToRgb ''ffa500'' = Inr (RGB 1 (165 / 255) 0)"
    by (simp_all add: color_defs)
  have e: "colorNames ''orange'' = Some ''#ffa500''"
    by (simp add: colorNames_def)
  have f: "toLowerCase ''Orange'' = ''orange''"
    by (simp add: toLowerCase_def toLowerCase_char_def)
  note t = color_resolution [of "''#FFA500''" "RGB 1 (165 / 255) 0" "''ffa500''" "''orange''"
      "''#ffa500''" "''Orange''"]
  have "toLowerCase (spec_strip_hash ''#FFA500'') = toLowerCase (spec_strip_hash ''ffa500'')"
    using t a b c d by simp
  moreover have "normalizeColor ''Orange'' = ''#ffa500''
      \<and> hexToRgb (normalizeColor ''Orange'') = hexToRgb ''#ffa500''"
    using t e f by blast
  moreover have "green (RGB 1 (165 / 255) 0) \<le> 1"
    using t c by blast
  ultimately show ?thesis using a b c d e by simp
qed

section \<open>Fields of a produced node\<close>

lemma create_base_fields:
  assumes "create_base h c = Inr n"
  shows "n_strokeWeight n = None"
    and "n_cornerRadius n = (if cfg_type c = ''rectangle'' then cfg_cornerRadius c else None)"
    and "n_pointCount n =
           (if cfg_type c = ''star'' \<and> truthy_num (cfg_pointCount c) then cfg_pointCount c
            else if cfg_type c = ''polygon'' \<and> truthy_num (cfg_polygonPointCount c)
              then cfg_polygonPointCount c
            else None)"
    and "n_innerRadius n =
           (if cfg_type c = ''star'' \<and> truthy_num (cfg_innerRadius c) then cfg_innerRadius c
            else None)"
    and "n_fontSize n =
           (if cfg_type c = ''text'' \<and> truthy_num (cfg_fontSize c) then cfg_fontSize c
            else None)"
    and "n_fills n = None" and "n_strokes n = None"
  using assms
  by (auto simp: create_base_def create_def Let_def split: if_splits)

lemma create_base_ok:
  assumes "kind_of_type (cfg_type c) = Some k" and "k = Text \<longrightarrow> loadFontAsync h"
  shows "\<exists>n. create_base h c = Inr n \<and> n_kind n = k"
  using assms
  by (auto simp: create_base_def kind_of_type_def create_def Let_def split: if_splits)

lemma apply_fill_fields:
  assumes "apply_fill h c n = Inr n'"
  shows "n_kind n' = n_kind n" and "n_strokeWeight n' = n_strokeWeight n"
    and "n_cornerRadius n' = n_cornerRadius n" and "n_pointCount n' = n_pointCount n"
    and "n_innerRadius n' = n_innerRadius n" and "n_fontSize n' = n_fontSize n"
    and "n_strokes n' = n_strokes n"
  using assms by (auto simp: apply_fill_def Let_def split: if_splits sum.splits)

lemma apply_stroke_fields:
  assumes "apply_stroke h c n = Inr n'"
  shows "n_kind n' = n_kind n"
    and "n_strokeWeight n' =
           (if truthy_str (cfg_stroke c) \<and> has_strokes h (n_kind n)
               \<and> truthy_num (cfg_strokeWidth c) \<and> has_strokeWeight h (n_kind n)
            then cfg_strokeWidth c else n_strokeWeight n)"
    and "n_cornerRadius n' = n_cornerRadius n" and "n_pointCount n' = n_pointCount n"
    and "n_innerRadius n' = n_innerRadius n" and "n_fontSize n' = n_fontSize n"
    and "n_fills n' = n_fills n"
  using assms by (auto simp: apply_stroke_def Let_def split: if_splits sum.splits)

lemma generateShape_steps:
  "generateShape h c =
     (case create_base h c of
        Inl e \<Rightarrow> Inl e
      | Inr n0 \<Rightarrow>
          (case apply_fill h c (placed h c n0) of
             Inl e \<Rightarrow> Inl e
           | Inr n1 \<Rightarrow> apply_stroke h c n1))"
  by (simp add: generateShape_def placed_def Let_def split: sum.splits)

lemma generateShape_InrE:
  assumes "generateShape h c = Inr n"
  obtains n0 n1 where "create_base h c = Inr n0" and "apply_fill h c (placed h c n0) = Inr n1"
    and "apply_stroke h c n1 = Inr n"
  using assms unfolding generateShape_steps by (auto split: sum.splits)

lemma placed_fields:
  "n_kind (placed h c n) = n_kind n" "n_strokeWeight (placed h c n) = n_strokeWeight n"
  "n_cornerRadius (placed h c n) = n_cornerRadius n" "n_pointCount (placed h c n) = n_pointCount n"
  "n_innerRadius (placed h c n) = n_innerRadius n" "n_fontSize (placed h c n) = n_fontSize n"
  "n_fills (placed h c n) = n_fills n" "n_strokes (placed h c n) = n_strokes n"
  by (simp_all add: placed_def)

lemma generateShape_fields:
  assumes "generateShape h c = Inr n"
  shows "n_strokeWeight n =
           (if truthy_str (cfg_stroke c) \<and> has_strokes h (n_kind n)
               \<and> truthy_num (cfg_strokeWidth c) \<and> has_strokeWeight h (n_kind n)
            then cfg_strokeWidth c else None)"
    and "n_cornerRadius n = (if cfg_type c = ''rectangle'' then cfg_cornerRadius c else None)"
    and "n_pointCount n =
           (if cfg_type c = ''star'' \<and> truthy_num (cfg_pointCount c) then cfg_pointCount c
            else if cfg_type c = ''polygon'' \<and> truthy_num (cfg_polygonPointCount c)
              then cfg_polygonPointCount c
            else None)"
    and "n_innerRadius n =
           (if cfg_type c = ''star'' \<and> truthy_num (cfg_innerRadius c) then cfg_innerRadius c
            else None)"
    and "n_fontSize n =
           (if cfg_type c = ''text'' \<and> truthy_num (cfg_fontSize c) then cfg_fontSize c
            else None)"
proof -
  from assms obtain n0 n1 where b: "create_base h c = Inr n0"
    and f: "apply_fill h c (placed h c n0) = Inr n1" and s: "apply_stroke h c n1 = Inr n"
    by (rule generateShape_InrE)
  note B = create_base_fields [OF b] and F = apply_fill_fields [OF f]
    and S = apply_stroke_fields [OF s]
  show "n_strokeWeight n =
           (if truthy_str (cfg_stroke c) \<and> has_strokes h (n_kind n)
               \<and> truthy_num (cfg_strokeWidth c) \<and> has_strokeWeight h (n_kind n)
            then cfg_strokeWidth c else None)"
    using S(1,2) F(2) B(1) by (simp add: placed_fields)
  show "n_cornerRadius n = (if cfg_type c = ''rectangle'' then cfg_cornerRadius c else None)"
    using S(3) F(3) B(2) by (simp add: placed_fields)
  show "n_pointCount n =
           (if cfg_type c = ''star'' \<and> truthy_num (cfg_pointCount c) then cfg_pointCount c
            else if cfg_type c = ''polygon'' \<and> truthy_num (cfg_polygonPointCount c)
              then cfg_polygonPointCount c
            else None)"
    using S(4) F(4) B(3) by (simp add: placed_fields)
  show "n_innerRadius n =
           (if cfg_type c = ''star'' \<and> truthy_num (cfg_innerRadius c) then cfg_innerRadius c
            else None)"
    using S(5) F(5) B(4) by (simp add: placed_fields)
  show "n_fontSize n =
           (if cfg_type c = ''text'' \<and> truthy_num (cfg_fontSize c) then cfg_fontSize c
            else None)"
    using S(6) F(6) B(5) by (simp add: placed_fields)
qed

section \<open>Invalid colours\<close>

lemma normalizeColor_unknown:
  "colorNames (toLowerCase v) = None \<Longrightarrow> normalizeColor v = v"
  by (simp add: normalizeColor_def)

lemma apply_fill_error: "apply_fill h c n = Inl e \<Longrightarrow> e = InvalidColor"
  by (auto simp: apply_fill_def hexToRgb_def Let_def split: if_splits sum.splits option.splits)

lemma apply_fill_invalid:
  assumes "cfg_fill c = Some v" and "has_fills h (n_kind n)"
    and "v \<noteq> []" and "v \<noteq> ''transparent''" and "\<not> spec_hex6 v"
    and "colorNames (toLowerCase v) = None"
  shows "apply_fill h c n = Inl InvalidColor"
  using assms
  by (simp add: apply_fill_def truthy_str_def normalizeColor_unknown hexToRgb_error)

lemma apply_stroke_invalid:
  assumes "cfg_stroke c = Some v" and "has_strokes h (n_kind n)"
    and "v \<noteq> []" and "\<not> spec_hex6 v" and "colorNames (toLowerCase v) = None"
  shows "apply_stroke h c n = Inl InvalidColor"
  using assms
  by (simp add: apply_stroke_def truthy_str_def normalizeColor_unknown hexToRgb_error)

text \<open>
  C6, as the script has it. A fill or stroke value that is not empty, is not
  \<open>transparent\<close>, is not a hex string \<open>^#?[0-9a-fA-F]{6}$\<close> and is not, in lower case, a
  key of \<open>colorNames\<close> makes \<open>generateShape\<close> fail with \<open>InvalidColor\<close>, without a
  node, whenever the type is supported, the font (for a text) is available and the node
  kind has the \<open>fills\<close> or \<open>strokes\<close> member concerned. The empty string is falsy and is
  treated as an absent field.
\<close>

theorem invalid_color_raises:
  assumes "v \<noteq> []" and "v \<noteq> ''transparent''" and "\<not> spec_hex6 v"
    and "colorNames (toLowerCase v) = None"
    and "kind_of_type (cfg_type c) = Some k" and "k = Text \<longrightarrow> loadFontAsync h"
    and "(cfg_fill c = Some v \<and> has_fills h k) \<or> (cfg_stroke c = Some v \<and> has_strokes h k)"
  shows "generateShape h c = Inl InvalidColor"
proof -
  obtain n0 where b: "create_base h c = Inr n0" and k: "n_kind n0 = k"
    using create_base_ok [OF assms(5,6)] by blast
  show ?thesis
  proof (cases "apply_fill h c (placed h c n0)")
    case (Inl e)
    then show ?thesis
      using b apply_fill_error [OF Inl] by (simp add: generateShape_steps)
  next
    case (Inr n1)
    have "\<not> (cfg_fill c = Some v \<and> has_fills h k)"
      using Inr apply_fill_invalid [of c v h "placed h c n0"] assms(1-4) k
      by (auto simp: placed_fields)
    then have "cfg_stroke c = Some v" and "has_strokes h (n_kind n1)"
      using assms(7) apply_fill_fields(1) [OF Inr] k by (auto simp: placed_fields)
    then have "apply_stroke h c n1 = Inl InvalidColor"
      using assms(1,3,4) by (intro apply_stroke_invalid)
    then show ?thesis
      using b Inr by (simp add: generateShape_steps)
  qed
qed

theorem invalid_color_raises_witness:
  "generateShape figma (blank\<lparr>cfg_type := ''rectangle'', cfg_fill := Some ''notacolor''\<rparr>)
     = Inl InvalidColor
   \<and> generateShape figma (blank\<lparr>cfg_type := ''ellipse'', cfg_stroke := Some ''#12''\<rparr>)
     = Inl InvalidColor"
proof -
  have a: "''notacolor'' \<noteq> []" "''notacolor'' \<noteq> ''transparent''" "\<not> spec_hex6 ''notacolor''"
    "colorNames (toLowerCase ''notacolor'') = None"
    by (simp_all add: spec_hex6_def spec_strip_hash_def colorNames_def toLowerCase_def
        toLowerCase_char_def)
  have b: "''#12'' \<noteq> []" "''#12'' \<noteq> ''transparent''" "\<not> spec_hex6 ''#12''"
    "colorNames (toLowerCase ''#12'') = None"
    by (simp_all add: spec_hex6_def spec_strip_hash_def colorNames_def toLowerCase_def
        toLowerCase_char_def)
  have "generateShape figma (blank\<lparr>cfg_type := ''rectangle'', cfg_fill := Some ''notacolor''\<rparr>)
      = Inl InvalidColor"
    by (rule invalid_color_raises [OF a, of _ Rectangle])
      (simp_all add: kind_of_type_def blank_def figma_def)
  moreover
  have "generateShape figma (blank\<lparr>cfg_type := ''ellipse'', cfg_stroke := Some ''#12''\<rparr>)
      = Inl InvalidColor"
    by (rule invalid_color_raises [OF b, of _ Ellipse])
      (simp_all add: kind_of_type_def blank_def figma_def)
  ultimately show ?thesis by blast
qed

theorem empty_color_counterexample:
  "\<not> spec_hex6 [] \<and> colorNames (toLowerCase []) = None \<and> has_fills figma Rectangle
   \<and> has_strokes figma Rectangle
   \<and> generateShape figma (blank\<lparr>cfg_type := ''rectangle'', cfg_fill := Some []\<rparr>)
       = Inr (blank_node Rectangle)
   \<and> generateShape figma (blank\<lparr>cfg_type := ''rectangle'', cfg_stroke := Some []\<rparr>)
       = Inr (blank_node Rectangle)"
  by (simp add: spec_hex6_def spec_strip_hash_def colorNames_def toLowerCase_def
      shape_defs blank_def blank_node_def)

section \<open>The value \<open>transparent\<close>\<close>

lemma apply_fill_transparent:
  "cfg_fill c = Some ''transparent'' \<Longrightarrow> apply_fill h c n = Inr n"
  by (simp add: apply_fill_def)

text \<open>
  C7. A fill of \<open>transparent\<close> leaves the node without a fill and without an error. A
  stroke of \<open>transparent\<close> is not short-circuited: \<open>normalizeColor\<close> returns it
  unchanged, \<open>hexToRgb\<close> is called on it and throws.
\<close>

theorem transparent_stroke_raises:
  "generateShape figma (blank\<lparr>cfg_type := ''rectangle'', cfg_fill := Some ''transparent''\<rparr>)
     = Inr (blank_node Rectangle)
   \<and> normalizeColor ''transparent'' = ''transparent''
   \<and> hexToRgb ''transparent'' = Inl InvalidColor
   \<and> generateShape figma (blank\<lparr>cfg_type := ''rectangle'', cfg_stroke := Some ''transparent''\<rparr>)
     = Inl InvalidColor"
  by (simp add: shape_defs blank_def blank_node_def normalizeColor_def hexToRgb_def
      regex_exec_def startsWith_hash_def)

section \<open>Stroke weight and corner radius\<close>

lemma create_base_update:
  "create_base h (c\<lparr>cfg_strokeWidth := w, cfg_cornerRadius := r\<rparr>) =
     (case create_base h c of
        Inl e \<Rightarrow> Inl e
      | Inr n \<Rightarrow> Inr (n\<lparr>n_cornerRadius := (if cfg_type c = ''rectangle'' then r else None)\<rparr>))"
  by (simp add: create_base_def create_def Let_def)

lemma placed_update:
  "placed h (c\<lparr>cfg_strokeWidth := w, cfg_cornerRadius := r\<rparr>) (n\<lparr>n_cornerRadius := a\<rparr>)
     = (placed h c n)\<lparr>n_cornerRadius := a\<rparr>"
  by (simp add: placed_def)

lemma apply_fill_update:
  "apply_fill h (c\<lparr>cfg_strokeWidth := w, cfg_cornerRadius := r\<rparr>) (n\<lparr>n_cornerRadius := a\<rparr>) =
     (case apply_fill h c n of Inl e \<Rightarrow> Inl e | Inr m \<Rightarrow> Inr (m\<lparr>n_cornerRadius := a\<rparr>))"
  by (simp add: apply_fill_def Let_def split: sum.splits)

lemma strokeWeight_None_update:
  "n_strokeWeight n = None \<Longrightarrow> n\<lparr>n_strokeWeight := None\<rparr> = n"
  by (cases n) simp

lemma apply_stroke_update:
  "n_strokeWeight n = None \<Longrightarrow>
   apply_stroke h (c\<lparr>cfg_strokeWidth := w, cfg_cornerRadius := r\<rparr>) (n\<lparr>n_cornerRadius := a\<rparr>) =
     (case apply_stroke h c n of
        Inl e \<Rightarrow> Inl e
      | Inr m \<Rightarrow>
          Inr (m\<lparr>n_strokeWeight :=
                   (if truthy_str (cfg_stroke c) \<and> has_strokes h (n_kind m)
                       \<and> truthy_num w \<and> has_strokeWeight h (n_kind m)
                    then w else None),
                 n_cornerRadius := a\<rparr>))"
  by (auto simp add: apply_stroke_def Let_def strokeWeight_None_update split: sum.splits)

lemma generateShape_update:
  "generateShape h (c\<lparr>cfg_strokeWidth := w, cfg_cornerRadius := r\<rparr>) =
     (case generateShape h c of
        Inl e \<Rightarrow> Inl e
      | Inr n \<Rightarrow>
          Inr (n\<lparr>n_strokeWeight :=
                   (if truthy_str (cfg_stroke c) \<and> has_strokes h (n_kind n)
                       \<and> truthy_num w \<and> has_strokeWeight h (n_kind n)
                    then w else None),
                 n_cornerRadius := (if cfg_type c = ''rectangle'' then r else None)\<rparr>))"
proof (cases "create_base h c")
  case (Inl e)
  then show ?thesis by (simp add: generateShape_steps create_base_update)
next
  case b: (Inr n0)
  show ?thesis
  proof (cases "apply_fill h c (placed h c n0)")
    case (Inl e)
    then show ?thesis
      using b by (simp add: generateShape_steps create_base_update placed_update
          apply_fill_update)
  next
    case f: (Inr n1)
    have "n_strokeWeight n1 = None"
      using apply_fill_fields(2) [OF f] create_base_fields(1) [OF b]
      by (simp add: placed_fields)
    then show ?thesis
      using b f by (simp add: generateShape_steps create_base_update placed_update
          apply_fill_update apply_stroke_update split: sum.splits)
  qed
qed

text \<open>
  C9, as the script has it. The stroke width is stored on the node exactly when a non-empty
  stroke colour is given as well, the node kind has \<open>strokes\<close> and \<open>strokeWeight\<close>,
  and the width is not zero; the corner radius exactly when the type is \<open>rectangle\<close>
  and a radius is given. Whatever the two values are, they change nothing else: the
  call fails in the same cases with the same error, and on success only these two
  attributes of the node depend on them.
\<close>

theorem stroke_weight_corner_radius:
  "(generateShape h c = Inr n \<longrightarrow>
      n_strokeWeight n =
        (if truthy_str (cfg_stroke c) \<and> has_strokes h (n_kind n)
            \<and> truthy_num (cfg_strokeWidth c) \<and> has_strokeWeight h (n_kind n)
         then cfg_strokeWidth c else None)
      \<and> n_cornerRadius n = (if cfg_type c = ''rectangle'' then cfg_cornerRadius c else None))
   \<and> generateShape h (c\<lparr>cfg_strokeWidth := w, cfg_cornerRadius := r\<rparr>) =
       (case generateShape h c of
          Inl e \<Rightarrow> Inl e
        | Inr m \<Rightarrow>
            Inr (m\<lparr>n_strokeWeight :=
                     (if truthy_str (cfg_stroke c) \<and> has_strokes h (n_kind m)
                         \<and> truthy_num w \<and> has_strokeWeight h (n_kind m)
                      then w else None),
                   n_cornerRadius := (if cfg_type c = ''rectangle'' then r else None)\<rparr>))"
  using generateShape_fields(1,2) [of h c n]
    generateShape_update [where h = h and c = c and w = w and r = r]
  by blast

theorem stroke_weight_corner_radius_witness:
  "generateShape figma
     (blank\<lparr>cfg_type := ''rectangle'', cfg_stroke := Some ''black'', cfg_strokeWidth := Some 3,
            cfg_cornerRadius := Some 8\<rparr>)
     = Inr ((blank_node Rectangle)\<lparr>n_strokes := Some [SOLID (RGB 0 0 0)],
              n_strokeWeight := Some 3, n_cornerRadius := Some 8\<rparr>)
   \<and> n_strokeWeight ((blank_node Rectangle)\<lparr>n_strokes := Some [SOLID (RGB 0 0 0)],
              n_strokeWeight := Some 3, n_cornerRadius := Some 8\<rparr>) = Some 3
   \<and> n_cornerRadius ((blank_node Rectangle)\<lparr>n_strokes := Some [SOLID (RGB 0 0 0)],
              n_strokeWeight := Some 3, n_cornerRadius := Some 8\<rparr>) = Some 8"
proof -
  have g: "generateShape figma
     (blank\<lparr>cfg_type := ''rectangle'', cfg_stroke := Some ''black'', cfg_strokeWidth := Some 3,
            cfg_cornerRadius := Some 8\<rparr>)
     = Inr ((blank_node Rectangle)\<lparr>n_strokes := Some [SOLID (RGB 0 0 0)],
              n_strokeWeight := Some 3, n_cornerRadius := Some 8\<rparr>)"
    by (simp add: shape_defs color_defs blank_def blank_node_def)
  show ?thesis
    using g stroke_weight_corner_radius
      [where h = figma
         and c = "blank\<lparr>cfg_type := ''rectangle'', cfg_stroke := Some ''black'',
            cfg_strokeWidth := Some 3, cfg_cornerRadius := Some 8\<rparr>"
         and n = "(blank_node Rectangle)\<lparr>n_strokes := Some [SOLID (RGB 0 0 0)],
              n_strokeWeight := Some 3, n_cornerRadius := Some 8\<rparr>"
         and w = None and r = None]
    by (simp add: truthy_str_def truthy_num_def)
qed

theorem stroke_weight_counterexample:
  "has_strokeWeight figma Rectangle
   \<and> generateShape figma (blank\<lparr>cfg_type := ''rectangle'', cfg_strokeWidth := Some 5\<rparr>)
       = Inr (blank_node Rectangle)
   \<and> n_strokeWeight (blank_node Rectangle) = None"
  by (simp add: shape_defs blank_def blank_node_def)

section \<open>Zero as an absent value\<close>

lemma generateShape_cong:
  assumes "create_base h c = create_base h c'"
    and "\<And>n. placed h c n = placed h c' n"
    and "\<And>n. apply_fill h c n = apply_fill h c' n"
    and "\<And>n. apply_stroke h c n = apply_stroke h c' n"
  shows "generateShape h c = generateShape h c'"
  by (simp add: generateShape_steps assms cong: sum.case_cong)

lemma generateShape_zero_pointCount:
  "generateShape h (c\<lparr>cfg_pointCount := Some 0\<rparr>) = generateShape h (c\<lparr>cfg_pointCount := None\<rparr>)"
  by (rule generateShape_cong)
    (simp_all add: create_base_def placed_def apply_fill_def apply_stroke_def truthy_num_def
      Let_def cong: sum.case_cong if_cong)

lemma generateShape_zero_innerRadius:
  "generateShape h (c\<lparr>cfg_innerRadius := Some 0\<rparr>) = generateShape h (c\<lparr>cfg_innerRadius := None\<rparr>)"
  by (rule generateShape_cong)
    (simp_all add: create_base_def placed_def apply_fill_def apply_stroke_def truthy_num_def
      Let_def cong: sum.case_cong if_cong)

lemma generateShape_zero_polygonPointCount:
  "generateShape h (c\<lparr>cfg_polygonPointCount := Some 0\<rparr>)
     = generateShape h (c\<lparr>cfg_polygonPointCount := None\<rparr>)"
  by (rule generateShape_cong)
    (simp_all add: create_base_def placed_def apply_fill_def apply_stroke_def truthy_num_def
      Let_def cong: sum.case_cong if_cong)

lemma generateShape_zero_fontSize:
  "generateShape h (c\<lparr>cfg_fontSize := Some 0\<rparr>) = generateShape h (c\<lparr>cfg_fontSize := None\<rparr>)"
  by (rule generateShape_cong)
    (simp_all add: create_base_def placed_def apply_fill_def apply_stroke_def truthy_num_def
      Let_def cong: sum.case_cong if_cong)

lemma generateShape_zero_strokeWidth:
  "generateShape h (c\<lparr>cfg_strokeWidth := Some 0\<rparr>) = generateShape h (c\<lparr>cfg_strokeWidth := None\<rparr>)"
  by (rule generateShape_cong)
    (simp_all add: create_base_def placed_def apply_fill_def apply_stroke_def truthy_num_def
      Let_def cong: sum.case_cong if_cong)

text \<open>
  C10. For \<open>pointCount\<close>, \<open>innerRadius\<close>, \<open>polygonPointCount\<close>, \<open>fontSize\<close> and
  \<open>strokeWidth\<close>, the value 0 gives the same result as an absent field, and the
  attribute of the node is left unset; a \<open>cornerRadius\<close> of 0 on a rectangle is stored
  on the node.
\<close>

theorem zero_is_absent:
  "generateShape h (c\<lparr>cfg_pointCount := Some 0\<rparr>) = generateShape h (c\<lparr>cfg_pointCount := None\<rparr>)
   \<and> generateShape h (c\<lparr>cfg_innerRadius := Some 0\<rparr>) = generateShape h (c\<lparr>cfg_innerRadius := None\<rparr>)
   \<and> generateShape h (c\<lparr>cfg_polygonPointCount := Some 0\<rparr>)
       = generateShape h (c\<lparr>cfg_polygonPointCount := None\<rparr>)
   \<and> generateShape h (c\<lparr>cfg_fontSize := Some 0\<rparr>) = generateShape h (c\<lparr>cfg_fontSize := None\<rparr>)
   \<and> generateShape h (c\<lparr>cfg_strokeWidth := Some 0\<rparr>) = generateShape h (c\<lparr>cfg_strokeWidth := None\<rparr>)
   \<and> (generateShape h c = Inr n \<longrightarrow>
        (cfg_type c = ''star'' \<and> cfg_pointCount c = Some 0 \<longrightarrow> n_pointCount n = None)
      \<and> (cfg_innerRadius c = Some 0 \<longrightarrow> n_innerRadius n = None)
      \<and> (cfg_type c = ''polygon'' \<and> cfg_polygonPointCount c = Some 0 \<longrightarrow> n_pointCount n = None)
      \<and> (cfg_fontSize c = Some 0 \<longrightarrow> n_fontSize n = None)
      \<and> (cfg_strokeWidth c = Some 0 \<longrightarrow> n_strokeWeight n = None)
      \<and> (cfg_type c = ''rectangle'' \<and> cfg_cornerRadius c = Some 0 \<longrightarrow> n_cornerRadius n = Some 0))"
proof -
  have fields: "(cfg_type c = ''star'' \<and> cfg_pointCount c = Some 0 \<longrightarrow> n_pointCount n = None)
      \<and> (cfg_innerRadius c = Some 0 \<longrightarrow> n_innerRadius n = None)
      \<and> (cfg_type c = ''polygon'' \<and> cfg_polygonPointCount c = Some 0 \<longrightarrow> n_pointCount n = None)
      \<and> (cfg_fontSize c = Some 0 \<longrightarrow> n_fontSize n = None)
      \<and> (cfg_strokeWidth c = Some 0 \<longrightarrow> n_strokeWeight n = None)
      \<and> (cfg_type c = ''rectangle'' \<and> cfg_cornerRadius c = Some 0 \<longrightarrow> n_cornerRadius n = Some 0)"
    if g: "generateShape h c = Inr n"
    using generateShape_fields [OF g] by (simp add: truthy_num_def)
  show ?thesis
    using fields generateShape_zero_pointCount [where h = h and c = c] generateShape_zero_innerRadius [where h = h and c = c]
      generateShape_zero_polygonPointCount [where h = h and c = c] generateShape_zero_fontSize [where h = h and c = c]
      generateShape_zero_strokeWidth [where h = h and c = c]
    by blast
qed

theorem zero_is_absent_witness:
  "generateShape figma
     (blank\<lparr>cfg_type := ''rectangle'', cfg_stroke := Some ''black'', cfg_strokeWidth := Some 0,
            cfg_cornerRadius := Some 0, cfg_innerRadius := Some 0, cfg_fontSize := Some 0\<rparr>)
     = Inr ((blank_node Rectangle)\<lparr>n_strokes := Some [SOLID (RGB 0 0 0)],
              n_cornerRadius := Some 0\<rparr>)
   \<and> n_strokeWeight ((blank_node Rectangle)\<lparr>n_strokes := Some [SOLID (RGB 0 0 0)],
              n_cornerRadius := Some 0\<rparr>) = None
   \<and> n_cornerRadius ((blank_node Rectangle)\<lparr>n_strokes := Some [SOLID (RGB 0 0 0)],
              n_cornerRadius := Some 0\<rparr>) = Some 0
   \<and> generateShape figma (blank\<lparr>cfg_type := ''star'', cfg_pointCount := Some 0\<rparr>)
     = Inr (blank_node Star)
   \<and> n_pointCount (blank_node Star) = None"
proof -
  have g: "generateShape figma
     (blank\<lparr>cfg_type := ''rectangle'', cfg_stroke := Some ''black'', cfg_strokeWidth := Some 0,
            cfg_cornerRadius := Some 0, cfg_innerRadius := Some 0, cfg_fontSize := Some 0\<rparr>)
     = Inr ((blank_node Rectangle)\<lparr>n_strokes := Some [SOLID (RGB 0 0 0)],
              n_cornerRadius := Some 0\<rparr>)"
    by (simp add: shape_defs color_defs blank_def blank_node_def)
  have s: "generateShape figma (blank\<lparr>cfg_type := ''star'', cfg_pointCount := Some 0\<rparr>)
     = Inr (blank_node Star)"
    by (simp add: shape_defs blank_def blank_node_def)
  have "n_strokeWeight ((blank_node Rectangle)\<lparr>n_strokes := Some [SOLID (RGB 0 0 0)],
              n_cornerRadius := Some 0\<rparr>) = None
      \<and> n_cornerRadius ((blank_node Rectangle)\<lparr>n_strokes := Some [SOLID (RGB 0 0 0)],
              n_cornerRadius := Some 0\<rparr>) = Some 0"
    using g zero_is_absent
      [where h = figma
         and c = "blank\<lparr>cfg_type := ''rectangle'', cfg_stroke := Some ''black'',
            cfg_strokeWidth := Some 0, cfg_cornerRadius := Some 0, cfg_innerRadius := Some 0,
            cfg_fontSize := Some 0\<rparr>"
         and n = "(blank_node Rectangle)\<lparr>n_strokes := Some [SOLID (RGB 0 0 0)],
              n_cornerRadius := Some 0\<rparr>"]
    by simp
  moreover have "n_pointCount (blank_node Star) = None"
    using s zero_is_absent
      [where h = figma and c = "blank\<lparr>cfg_type := ''star'', cfg_pointCount := Some 0\<rparr>"
         and n = "blank_node Star"]
    by simp
  ultimately show ?thesis using g s by blast
qed

end
